theory Spec2Isabelle
  imports Main
begin

section \<open>JavaScript values\<close>

text \<open>
  The request bodies are what \<^verbatim>\<open>bodyParser.json()\<close> hands to the handlers: parsed JSON, read
  with property access, optional chaining and truthiness tests. \<open>JUndefined\<close> is the value
  of a missing property. Numbers are modelled as integers: the code only tests them for
  truthiness. An object is the list of its own properties; the first binding of a key is
  the one read. A string is the sequence of its characters, an ASCII character as one
  \<open>char\<close> and a character outside ASCII as the bytes of its UTF-8 encoding.
\<close>

datatype json =
    JUndefined
  | JNull
  | JBool bool
  | JNum int
  | JStr string
  | JArr "json list"
  | JObj "(string \<times> json) list"

text \<open>
  What a \<^verbatim>\<open>throw\<close> carries: a \<^verbatim>\<open>TypeError\<close> of the engine (a property read on
  \<^verbatim>\<open>undefined\<close> or \<^verbatim>\<open>null\<close>, a call of something that is no function, a loop over
  something that is not iterable), \<^verbatim>\<open>new Error(message)\<close>, and the rejection of
  \<^verbatim>\<open>axios.post\<close> with its message.
\<close>

datatype js_error = TypeError | Error string | AxiosError string

fun nullish :: "json \<Rightarrow> bool" where
  "nullish JUndefined = True"
| "nullish JNull = True"
| "nullish _ = False"

fun truthy :: "json \<Rightarrow> bool" where
  "truthy JUndefined = False"
| "truthy JNull = False"
| "truthy (JBool b) = b"
| "truthy (JNum n) = (n \<noteq> 0)"
| "truthy (JStr s) = (s \<noteq> [])"
| "truthy (JArr xs) = True"
| "truthy (JObj kvs) = True"

text \<open>
  The characters (code points) of a string: a byte from \<open>0x80\<close> to \<open>0xBF\<close> continues the
  character begun before it. The \<^verbatim>\<open>length\<close> of a string counts UTF-16 code units, two for
  a character whose encoding begins with a byte from \<open>0xF0\<close> on.
\<close>

definition is_continuation :: "char \<Rightarrow> bool" where
  "is_continuation c = (128 \<le> (of_char c :: nat) \<and> (of_char c :: nat) < 192)"

fun code_points :: "string \<Rightarrow> string list" where
  "code_points [] = []"
| "code_points (c # cs) =
     (case code_points cs of
        [] \<Rightarrow> [[c]]
      | p # ps \<Rightarrow> if is_continuation (hd p) then (c # p) # ps else [c] # p # ps)"

definition utf16_length :: "string \<Rightarrow> nat" where
  "utf16_length s =
     sum_list (map (\<lambda>p. if 240 \<le> (of_char (hd p) :: nat) then 2 else 1) (code_points s))"

text \<open>
  \<^verbatim>\<open>v.k\<close> for the property names the code reads. None of them is inherited from a
  prototype except \<^verbatim>\<open>length\<close> of arrays and strings. The read of a property of
  \<^verbatim>\<open>undefined\<close> or \<^verbatim>\<open>null\<close> throws.
\<close>

fun get_prop :: "json \<Rightarrow> string \<Rightarrow> js_error + json" where
  "get_prop JUndefined k = Inl TypeError"
| "get_prop JNull k = Inl TypeError"
| "get_prop (JObj kvs) k = Inr (case map_of kvs k of Some v \<Rightarrow> v | None \<Rightarrow> JUndefined)"
| "get_prop (JArr xs) k = Inr (if k = ''length'' then JNum (int (length xs)) else JUndefined)"
| "get_prop (JStr s) k =
     Inr (if k = ''length'' then JNum (int (utf16_length s)) else JUndefined)"
| "get_prop (JBool b) k = Inr JUndefined"
| "get_prop (JNum n) k = Inr JUndefined"

text \<open>\<^verbatim>\<open>v[0]\<close>: the first element of an array, the first character of a string, the
  property \<^verbatim>\<open>"0"\<close> of an object. (Of a string that begins with a character outside the
  Basic Multilingual Plane, JavaScript gives the first of its two code units; the model gives
  the character. The code reads such a value only for its truthiness and its properties.)\<close>

fun index0 :: "json \<Rightarrow> js_error + json" where
  "index0 JUndefined = Inl TypeError"
| "index0 JNull = Inl TypeError"
| "index0 (JArr xs) = Inr (case xs of [] \<Rightarrow> JUndefined | x # _ \<Rightarrow> x)"
| "index0 (JStr s) = Inr (case code_points s of [] \<Rightarrow> JUndefined | p # _ \<Rightarrow> JStr p)"
| "index0 (JObj kvs) = Inr (case map_of kvs ''0'' of Some v \<Rightarrow> v | None \<Rightarrow> JUndefined)"
| "index0 (JBool b) = Inr JUndefined"
| "index0 (JNum n) = Inr JUndefined"

text \<open>Optional chaining, \<^verbatim>\<open>v?.k\<close> and \<^verbatim>\<open>v?.[0]\<close>: \<^verbatim>\<open>undefined\<close> on a nullish
  \<open>v\<close>, the plain read otherwise. It never throws.\<close>

definition opt_prop :: "json \<Rightarrow> string \<Rightarrow> json" where
  "opt_prop v k = (case get_prop v k of Inl e \<Rightarrow> JUndefined | Inr x \<Rightarrow> x)"

definition opt_index0 :: "json \<Rightarrow> json" where
  "opt_index0 v = (case index0 v of Inl e \<Rightarrow> JUndefined | Inr x \<Rightarrow> x)"

text \<open>\<^verbatim>\<open>a || b\<close>.\<close>

definition js_or :: "json \<Rightarrow> json \<Rightarrow> json" where
  "js_or a b = (if truthy a then a else b)"

section \<open>The reply classifier\<close>

text \<open>
  Lines 228 to 234 of the webhook handler. The word characters of \<^verbatim>\<open>\b\<close> are the ASCII
  letters, the digits and the underscore; no byte of a character outside ASCII is one.
\<close>

definition is_word_char :: "char \<Rightarrow> bool" where
  "is_word_char c =
     (c \<in> set (''abcdefghijklmnopqrstuvwxyz'' @ ''ABCDEFGHIJKLMNOPQRSTUVWXYZ'' @ ''0123456789_''))"

text \<open>The lower case of an ASCII character.\<close>

definition lower_ascii :: "char \<Rightarrow> char" where
  "lower_ascii c =
     (case map_of (zip ''ABCDEFGHIJKLMNOPQRSTUVWXYZ'' ''abcdefghijklmnopqrstuvwxyz'') c of
        Some l \<Rightarrow> l
      | None \<Rightarrow> c)"

text \<open>
  \<^verbatim>\<open>String.prototype.toLowerCase\<close>. It folds the ASCII capitals, and two characters
  outside ASCII have a lower case that holds an ASCII letter: U+212A KELVIN SIGN (bytes
  \<open>E2 84 AA\<close>) becomes \<^verbatim>\<open>k\<close>, and U+0130 LATIN CAPITAL LETTER I WITH DOT ABOVE (bytes
  \<open>C4 B0\<close>) becomes \<^verbatim>\<open>i\<close> followed by U+0307 (bytes \<open>CC 87\<close>). The lower case of every
  other character outside ASCII lies outside ASCII as well; the model keeps the bytes of such
  a character, which stand for that lower case: the patterns below test ASCII literals and
  ASCII word characters only, so they match the one text exactly when they match the other
  (see \<open>same_ascii\<close> and \<open>classify_lower_same_ascii\<close>).
\<close>

fun toLowerCase :: "string \<Rightarrow> string" where
  "toLowerCase (a # b # c # cs) =
     (if a = CHR 0xE2 \<and> b = CHR 0x84 \<and> c = CHR 0xAA then CHR ''k'' # toLowerCase cs
      else if a = CHR 0xC4 \<and> b = CHR 0xB0
           then CHR ''i'' # CHR 0xCC # CHR 0x87 # toLowerCase (c # cs)
      else lower_ascii a # toLowerCase (b # c # cs))"
| "toLowerCase [a, b] =
     (if a = CHR 0xC4 \<and> b = CHR 0xB0 then [CHR ''i'', CHR 0xCC, CHR 0x87]
      else [lower_ascii a, lower_ascii b])"
| "toLowerCase [a] = [lower_ascii a]"
| "toLowerCase [] = []"

text \<open>
  The regular expressions the handler uses are built from the start and end anchors, the
  word boundary, literals, alternation and concatenation. \<open>rmatch r s i\<close> lists the
  positions at which a match of \<open>r\<close> that starts at position \<open>i\<close> of \<open>s\<close> can end, in the
  order the backtracking matcher tries them; \<^verbatim>\<open>r.test(s)\<close> holds when some start position
  has a match.
\<close>

datatype regex = Bol | Eol | WordB | Lit string | Alt regex regex | Seq regex regex

definition word_at :: "string \<Rightarrow> nat \<Rightarrow> bool" where
  "word_at s i = (i < length s \<and> is_word_char (s ! i))"

definition word_boundary :: "string \<Rightarrow> nat \<Rightarrow> bool" where
  "word_boundary s i = ((0 < i \<and> word_at s (i - 1)) \<noteq> word_at s i)"

fun rmatch :: "regex \<Rightarrow> string \<Rightarrow> nat \<Rightarrow> nat list" where
  "rmatch Bol s i = (if i = 0 then [i] else [])"
| "rmatch Eol s i = (if i = length s then [i] else [])"
| "rmatch WordB s i = (if word_boundary s i then [i] else [])"
| "rmatch (Lit w) s i = (if take (length w) (drop i s) = w then [i + length w] else [])"
| "rmatch (Alt a b) s i = rmatch a s i @ rmatch b s i"
| "rmatch (Seq a b) s i = concat (map (rmatch b s) (rmatch a s i))"

definition re_test :: "regex \<Rightarrow> string \<Rightarrow> bool" where
  "re_test r s = list_ex (\<lambda>i. rmatch r s i \<noteq> []) [0..<Suc (length s)]"

text \<open>\<^verbatim>\<open>/(^|\b)(yes|attending|will attend)(\b|$)/\<close>\<close>

definition confirmed_re :: regex where
  "confirmed_re =
     Seq (Alt Bol WordB)
       (Seq (Alt (Lit ''yes'') (Alt (Lit ''attending'') (Lit ''will attend'')))
          (Alt WordB Eol))"

text \<open>\<^verbatim>\<open>/(^|\b)(no|not attending|cannot attend)(\b|$)/\<close>\<close>

definition declined_re :: regex where
  "declined_re =
     Seq (Alt Bol WordB)
       (Seq (Alt (Lit ''no'') (Alt (Lit ''not attending'') (Lit ''cannot attend'')))
          (Alt WordB Eol))"

text \<open>\<^verbatim>\<open>/(^|\b)(maybe|possibly)(\b|$)/\<close>\<close>

definition maybe_re :: regex where
  "maybe_re =
     Seq (Alt Bol WordB) (Seq (Alt (Lit ''maybe'') (Lit ''possibly'')) (Alt WordB Eol))"

datatype rsvp = Pending | Confirmed | Declined | Maybe

definition classify_lower :: "string \<Rightarrow> rsvp" where
  "classify_lower t =
     (if re_test confirmed_re t then Confirmed
      else if re_test declined_re t then Declined
      else if re_test maybe_re t then Maybe
      else Pending)"

definition classify :: "string \<Rightarrow> rsvp" where
  "classify messageText = classify_lower (toLowerCase messageText)"

text \<open>
  The specification's reading of the three groups: a keyword list each, and a keyword
  occurring in the text with no word character next to it on either side.
\<close>

definition confirmed_keywords :: "string list" where
  "confirmed_keywords = [''yes'', ''attending'', ''will attend'']"

definition declined_keywords :: "string list" where
  "declined_keywords = [''no'', ''not attending'', ''cannot attend'']"

definition maybe_keywords :: "string list" where
  "maybe_keywords = [''maybe'', ''possibly'']"

definition delimited_at :: "string \<Rightarrow> string \<Rightarrow> nat \<Rightarrow> bool" where
  "delimited_at kw t i =
     (take (length kw) (drop i t) = kw \<and>
      \<not> (0 < i \<and> word_at t (i - 1)) \<and>
      \<not> word_at t (i + length kw))"

definition contains_word :: "string \<Rightarrow> string \<Rightarrow> bool" where
  "contains_word kw t = list_ex (delimited_at kw t) [0..<Suc (length t)]"

definition rsvp_groups :: "(regex \<times> string list) list" where
  "rsvp_groups =
     [(confirmed_re, confirmed_keywords),
      (declined_re, declined_keywords),
      (maybe_re, maybe_keywords)]"

text \<open>
  Two texts that hold the same ASCII characters in the same order, separated at the same
  places by characters outside ASCII, whichever and however many: this is how the text that
  JavaScript's \<^verbatim>\<open>toLowerCase\<close> returns is related to the one \<open>toLowerCase\<close> above returns.
  The classifier does not tell such texts apart (\<open>classify_lower_same_ascii\<close> below).
\<close>

definition is_ascii :: "char \<Rightarrow> bool" where
  "is_ascii c = ((of_char c :: nat) < 128)"

inductive same_ascii :: "string \<Rightarrow> string \<Rightarrow> bool" where
  empty: "same_ascii [] []"
| keep: "is_ascii c \<Longrightarrow> same_ascii s t \<Longrightarrow> same_ascii (c # s) (c # t)"
| swap: "\<not> is_ascii a \<Longrightarrow> \<not> is_ascii b \<Longrightarrow> same_ascii s t \<Longrightarrow> same_ascii (a # s) (b # t)"
| more_left:
    "\<not> is_ascii a \<Longrightarrow> \<not> is_ascii a' \<Longrightarrow> same_ascii (a' # s) t \<Longrightarrow> same_ascii (a # a' # s) t"
| more_right:
    "\<not> is_ascii b \<Longrightarrow> \<not> is_ascii b' \<Longrightarrow> same_ascii s (b' # t) \<Longrightarrow> same_ascii s (b # b' # t)"

text \<open>A keyword between a prefix and a suffix of the text, with no word character next to
  it; \<open>b\<close> says whether a word character stands before the text.\<close>

definition occurs :: "bool \<Rightarrow> string \<Rightarrow> string \<Rightarrow> bool" where
  "occurs b kw s =
     (\<exists>pre post. s = pre @ kw @ post \<and>
        (if pre = [] then \<not> b else \<not> is_word_char (last pre)) \<and>
        (post = [] \<or> \<not> is_word_char (hd post)))"

section \<open>Configuration and the outbound send\<close>

text \<open>
  \<^verbatim>\<open>process.env\<close> is a map from variable names to strings; an unset variable reads as
  \<^verbatim>\<open>undefined\<close>. Both files define \<^verbatim>\<open>getWhatsAppConfig\<close> the same way.
\<close>

type_synonym env = "string \<Rightarrow> string option"

record whatsapp_config =
  phoneNumberId :: "string option"
  accessToken :: "string option"
  wabaId :: "string option"
  webhookVerifyToken :: "string option"

definition getWhatsAppConfig :: "env \<Rightarrow> whatsapp_config" where
  "getWhatsAppConfig e =
     \<lparr>phoneNumberId = e ''WHATSAPP_PHONE_NUMBER_ID'',
      accessToken = e ''WHATSAPP_ACCESS_TOKEN'',
      wabaId = e ''WHATSAPP_BUSINESS_ACCOUNT_ID'',
      webhookVerifyToken = e ''WHATSAPP_WEBHOOK_VERIFY_TOKEN''\<rparr>"

text \<open>\<^verbatim>\<open>!v\<close> for a configuration value: unset, or the empty string.\<close>

definition falsy_env :: "string option \<Rightarrow> bool" where
  "falsy_env v = (case v of None \<Rightarrow> True | Some s \<Rightarrow> s = [])"

text \<open>\<^verbatim>\<open>s.replace(p, r)\<close> with a string pattern: the first occurrence of \<open>p\<close> is replaced.\<close>

fun replace_first :: "string \<Rightarrow> string \<Rightarrow> string \<Rightarrow> string" where
  "replace_first p r [] = (if p = [] then r else [])"
| "replace_first p r (c # cs) =
     (if take (length p) (c # cs) = p then r @ drop (length p) (c # cs)
      else c # replace_first p r cs)"

text \<open>
  A request of \<^verbatim>\<open>axios.post\<close>: the URL, the JSON payload and the bearer token. The network
  is a function from the request to what the call resolves to (\<^verbatim>\<open>response.data\<close>) or
  rejects with.
\<close>

record http_request =
  url :: string
  payload :: json
  bearer :: string

type_synonym network = "http_request \<Rightarrow> js_error + json"

definition config_missing :: js_error where
  "config_missing = Error ''WhatsApp configuration missing: phoneNumberId or accessToken''"

subsection \<open>The copy in the HTTP entry point (app.js)\<close>

definition WHATSAPP_API_URL_app :: string where
  "WHATSAPP_API_URL_app = ''https://graph.facebook.com/v18.0''"

definition cleanPhoneNumber_app :: "string \<Rightarrow> string" where
  "cleanPhoneNumber_app to = replace_first ''+'' [] (replace_first ''whatsapp:'' [] to)"

text \<open>
  The result is the list of requests sent (none or one) and the value returned or the
  error thrown. \<^verbatim>\<open>to.replace\<close> throws a \<^verbatim>\<open>TypeError\<close> unless \<open>to\<close> is a string.
\<close>

definition sendTextMessage_app ::
  "env \<Rightarrow> network \<Rightarrow> json \<Rightarrow> json \<Rightarrow> http_request list \<times> (js_error + json)" where
  "sendTextMessage_app e net to message =
     (let config = getWhatsAppConfig e in
      if falsy_env (phoneNumberId config) \<or> falsy_env (accessToken config)
      then ([], Inl config_missing)
      else
        (case to of
           JStr t \<Rightarrow>
             (let request =
                \<lparr>url = WHATSAPP_API_URL_app @ ''/'' @ the (phoneNumberId config) @ ''/messages'',
                 payload = JObj [(''messaging_product'', JStr ''whatsapp''),
                                 (''to'', JStr (cleanPhoneNumber_app t)),
                                 (''text'', JObj [(''body'', message)])],
                 bearer = the (accessToken config)\<rparr>
              in ([request], net request))
         | _ \<Rightarrow> ([], Inl TypeError)))"

subsection \<open>The copy in the shared module\<close>

definition WHATSAPP_API_URL_module :: string where
  "WHATSAPP_API_URL_module = ''https://graph.facebook.com/v22.0''"

definition cleanPhoneNumber_module :: "string \<Rightarrow> string" where
  "cleanPhoneNumber_module to = replace_first ''whatsapp:'' [] to"

text \<open>The \<^verbatim>\<open>catch\<close> around the request logs the error and throws it again.\<close>

definition sendTextMessage_module ::
  "env \<Rightarrow> network \<Rightarrow> json \<Rightarrow> json \<Rightarrow> http_request list \<times> (js_error + json)" where
  "sendTextMessage_module e net to message =
     (let config = getWhatsAppConfig e in
      if falsy_env (phoneNumberId config) \<or> falsy_env (accessToken config)
      then ([], Inl config_missing)
      else
        (case to of
           JStr t \<Rightarrow>
             (let request =
                \<lparr>url = WHATSAPP_API_URL_module @ ''/'' @ the (phoneNumberId config) @ ''/messages'',
                 payload = JObj [(''messaging_product'', JStr ''whatsapp''),
                                 (''to'', JStr (cleanPhoneNumber_module t)),
                                 (''type'', JStr ''text''),
                                 (''text'', JObj [(''body'', message)])],
                 bearer = the (accessToken config)\<rparr>
              in ([request],
                  (case net request of Inl err \<Rightarrow> Inl err | Inr data \<Rightarrow> Inr data)))
         | _ \<Rightarrow> ([], Inl TypeError)))"

section \<open>The webhook payload parser of the shared module\<close>

record inbound_message =
  im_messageId :: json
  im_from :: json
  im_timestamp :: json
  im_type :: json
  im_text :: json
  im_contactName :: json
  im_waId :: json

text \<open>
  \<^verbatim>\<open>body.entry?.[0]\<close>, then \<^verbatim>\<open>entry?.changes?.[0]\<close>, then \<^verbatim>\<open>changes?.value\<close>: only the
  first read, of \<^verbatim>\<open>body.entry\<close>, can throw. The parser and the POST handler descend the same
  way.
\<close>

definition webhook_value :: "json \<Rightarrow> js_error + json" where
  "webhook_value body =
     (case get_prop body ''entry'' of
        Inl err \<Rightarrow> Inl err
      | Inr en \<Rightarrow>
          (let entry = opt_index0 en;
               changes = opt_index0 (opt_prop entry ''changes'')
           in Inr (opt_prop changes ''value'')))"

text \<open>\<^verbatim>\<open>message.text?.body || ""\<close>; the read of \<^verbatim>\<open>message.text\<close> throws on a nullish
  message.\<close>

definition text_body :: "json \<Rightarrow> js_error + json" where
  "text_body message =
     (case get_prop message ''text'' of
        Inl err \<Rightarrow> Inl err
      | Inr t \<Rightarrow> Inr (js_or (opt_prop t ''body'') (JStr [])))"

text \<open>The body of the \<^verbatim>\<open>try\<close> block: \<open>Inr None\<close> is \<^verbatim>\<open>return null\<close>.\<close>

definition parse_try :: "json \<Rightarrow> js_error + inbound_message option" where
  "parse_try body =
     (case webhook_value body of
        Inl err \<Rightarrow> Inl err
      | Inr v \<Rightarrow>
          if \<not> truthy v \<or> \<not> truthy (opt_prop v ''messages'') then Inr None
          else
            (case index0 (opt_prop v ''messages'') of
               Inl err \<Rightarrow> Inl err
             | Inr message \<Rightarrow>
                 (let contact = opt_index0 (opt_prop v ''contacts'') in
                  case get_prop message ''id'' of
                    Inl err \<Rightarrow> Inl err
                  | Inr mid \<Rightarrow>
                      (case text_body message of
                         Inl err \<Rightarrow> Inl err
                       | Inr txt \<Rightarrow>
                           Inr (Some
                             \<lparr>im_messageId = mid,
                              im_from = opt_prop message ''from'',
                              im_timestamp = opt_prop message ''timestamp'',
                              im_type = opt_prop message ''type'',
                              im_text = txt,
                              im_contactName =
                                js_or (opt_prop (opt_prop contact ''profile'') ''name'') (JStr []),
                              im_waId =
                                js_or (opt_prop contact ''wa_id'') (opt_prop message ''from'')\<rparr>)))))"

text \<open>The \<^verbatim>\<open>catch\<close> logs and returns \<^verbatim>\<open>null\<close>.\<close>

definition parseWebhookPayload :: "json \<Rightarrow> inbound_message option" where
  "parseWebhookPayload body = (case parse_try body of Inl err \<Rightarrow> None | Inr r \<Rightarrow> r)"

section \<open>The HTTP handlers of app.js\<close>

text \<open>
  A handler run is the list of its effects, in order, and the response it sends. The
  datastore is the Supabase client: its calls resolve to a reply and do not throw. A row
  and a set of changed columns are JSON objects; \<^verbatim>\<open>new Date()\<close> is the parameter \<open>now\<close>,
  an ISO string. A response body is what \<^verbatim>\<open>res.send\<close> is given, or the report
  \<^verbatim>\<open>{success: true, results, errors}\<close> of the bulk handler (\<open>BulkJson\<close>; an entry of
  \<^verbatim>\<open>errors\<close> is the recipient and the error whose message is reported), or
  \<^verbatim>\<open>{success: false, error: e.message}\<close> (\<open>FailureJson\<close>).
\<close>

record status_update =
  su_id :: json
  su_status :: json
  su_timestamp :: json
  su_conversation :: json
  su_pricing :: json
  su_errors :: json

datatype effect =
    LogReceived string
  | LogBody json
  | LogVerified
  | LogStatus status_update
  | Post http_request
  | DbSelect string string json
  | DbInsert string json
  | DbUpdate string json json
  | Sleep nat

datatype response_body =
    Send json
  | BulkJson "json list" "(json \<times> js_error) list"
  | FailureJson js_error

record http_response =
  status :: nat
  body :: response_body

text \<open>
  A row of \<^verbatim>\<open>invitees\<close> as the handler reads it: its \<^verbatim>\<open>id\<close> and the text column
  \<^verbatim>\<open>additional_info\<close>, which may be null.
\<close>

record invitee =
  inv_id :: json
  inv_additional_info :: "string option"

record lookup_reply =
  lr_data :: "invitee list option"
  lr_error :: bool

record database =
  select_invitees :: "json \<Rightarrow> lookup_reply"
  insert_history :: "json \<Rightarrow> json"

subsection \<open>GET /api/webhook-response\<close>

text \<open>
  \<^verbatim>\<open>token === config.webhookVerifyToken\<close>: a query parameter is a string, an array, an
  object or \<^verbatim>\<open>undefined\<close>; the configured token is a string or \<^verbatim>\<open>undefined\<close>.
\<close>

definition strict_eq_env :: "json \<Rightarrow> string option \<Rightarrow> bool" where
  "strict_eq_env v c =
     (case v of
        JUndefined \<Rightarrow> c = None
      | JStr s \<Rightarrow> c = Some s
      | _ \<Rightarrow> False)"

definition webhook_get :: "env \<Rightarrow> (string \<Rightarrow> json) \<Rightarrow> effect list \<times> http_response" where
  "webhook_get e query =
     (let mode = query ''hub.mode'';
          token = query ''hub.verify_token'';
          challenge = query ''hub.challenge'';
          config = getWhatsAppConfig e
      in if mode = JStr ''subscribe'' \<and> strict_eq_env token (webhookVerifyToken config)
         then ([LogVerified], \<lparr>status = 200, body = Send challenge\<rparr>)
         else ([], \<lparr>status = 403, body = Send (JStr ''Forbidden'')\<rparr>))"

subsection \<open>POST /api/webhook-response\<close>

text \<open>The object logged for one entry of \<^verbatim>\<open>value.statuses\<close>; \<^verbatim>\<open>s.id\<close> throws on a
  nullish entry.\<close>

definition status_entry :: "json \<Rightarrow> js_error + status_update" where
  "status_entry s =
     (case get_prop s ''id'' of
        Inl err \<Rightarrow> Inl err
      | Inr i \<Rightarrow>
          Inr \<lparr>su_id = i,
               su_status = opt_prop s ''status'',
               su_timestamp = opt_prop s ''timestamp'',
               su_conversation = opt_prop s ''conversation'',
               su_pricing = opt_prop s ''pricing'',
               su_errors = opt_prop s ''errors''\<rparr>)"

text \<open>\<^verbatim>\<open>for (const s of v)\<close>: an array yields its elements, a string its characters
  (code points), anything else is not iterable.\<close>

fun iterate :: "json \<Rightarrow> js_error + json list" where
  "iterate (JArr xs) = Inr xs"
| "iterate (JStr s) = Inr (map JStr (code_points s))"
| "iterate _ = Inl TypeError"

text \<open>The loop over the statuses: the entries logged, and the error that ended it, if any.\<close>

fun log_statuses :: "json list \<Rightarrow> effect list \<times> js_error option" where
  "log_statuses [] = ([], None)"
| "log_statuses (s # ss) =
     (case status_entry s of
        Inl err \<Rightarrow> ([], Some err)
      | Inr u \<Rightarrow> (case log_statuses ss of (l, r) \<Rightarrow> (LogStatus u # l, r)))"

definition rsvp_name :: "rsvp \<Rightarrow> string" where
  "rsvp_name r =
     (case r of
        Pending \<Rightarrow> ''pending''
      | Confirmed \<Rightarrow> ''confirmed''
      | Declined \<Rightarrow> ''declined''
      | Maybe \<Rightarrow> ''maybe'')"

text \<open>Lines 227 to 262: what is done for the invitee found, given the message text.\<close>

definition record_reply ::
  "string \<Rightarrow> invitee \<Rightarrow> json \<Rightarrow> json \<Rightarrow> effect list \<times> js_error option" where
  "record_reply now invitee messageText messageId =
     (case messageText of
        JStr txt \<Rightarrow>
          (let rsvpStatus = classify txt;
               note = now @ '': '' @ txt;
               update =
                 (if rsvpStatus \<noteq> Pending
                  then [DbUpdate ''invitees''
                          (JObj [(''rsvp_status'', JStr (rsvp_name rsvpStatus)),
                                 (''additional_info'',
                                  JStr (case inv_additional_info invitee of
                                          None \<Rightarrow> note
                                        | Some info \<Rightarrow>
                                            if info = [] then note
                                            else info @ [CHR 0x0A] @ note)),
                                 (''updated_at'', JStr now)])
                          (inv_id invitee)]
                  else [])
           in (update @
               [DbInsert ''message_history''
                  (JObj [(''invitee_id'', inv_id invitee),
                         (''message_body'', messageText),
                         (''sent_at'', JStr now),
                         (''status'', JStr ''delivered''),
                         (''response_received'', JBool True),
                         (''response_text'', messageText),
                         (''response_received_at'', JStr now),
                         (''whatsapp_message_id'', messageId)])],
               None))
      | _ \<Rightarrow> ([], Some TypeError))"

definition ok_response :: http_response where
  "ok_response = \<lparr>status = 200, body = Send (JStr ''OK'')\<rparr>"

text \<open>Lines 214 to 265: the message branch of the \<^verbatim>\<open>try\<close> block.\<close>

definition handle_message ::
  "database \<Rightarrow> string \<Rightarrow> json \<Rightarrow> effect list \<times> (js_error + http_response)" where
  "handle_message db now v =
     (case get_prop v ''messages'' of
        Inl err \<Rightarrow> ([], Inl err)
      | Inr ms \<Rightarrow>
          (case index0 ms of
             Inl err \<Rightarrow> ([], Inl err)
           | Inr message \<Rightarrow>
               (let contact = opt_index0 (opt_prop v ''contacts'') in
                case text_body message of
                  Inl err \<Rightarrow> ([], Inl err)
                | Inr messageText \<Rightarrow>
                    (let from = opt_prop message ''from'';
                         messageId = opt_prop message ''id'';
                         reply = select_invitees db from;
                         lookup = [DbSelect ''invitees'' ''phone_number'' from]
                     in case (lr_error reply, lr_data reply) of
                          (False, Some (invitee # _)) \<Rightarrow>
                            (case record_reply now invitee messageText messageId of
                               (effs, Some err) \<Rightarrow> (lookup @ effs, Inl err)
                             | (effs, None) \<Rightarrow> (lookup @ effs, Inr ok_response))
                        | _ \<Rightarrow> (lookup, Inr ok_response)))))"

text \<open>Lines 192 to 265: the \<^verbatim>\<open>try\<close> block.\<close>

definition webhook_post_try ::
  "database \<Rightarrow> string \<Rightarrow> json \<Rightarrow> effect list \<times> (js_error + http_response)" where
  "webhook_post_try db now reqbody =
     (if \<not> truthy reqbody
      then ([], Inr \<lparr>status = 400, body = Send (JStr ''Bad Request: Empty body'')\<rparr>)
      else
        (case webhook_value reqbody of
           Inl err \<Rightarrow> ([], Inl err)
         | Inr v \<Rightarrow>
             if (\<not> truthy v \<or> \<not> truthy (opt_prop v ''messages'')) \<and>
                truthy (opt_prop (opt_prop v ''statuses'') ''length'')
             then
               (case iterate (opt_prop v ''statuses'') of
                  Inl err \<Rightarrow> ([], Inl err)
                | Inr ss \<Rightarrow>
                    (case log_statuses ss of
                       (l, Some err) \<Rightarrow> (l, Inl err)
                     | (l, None) \<Rightarrow> (l, Inr ok_response)))
             else handle_message db now v))"

text \<open>
  The handler: the two log lines, the \<^verbatim>\<open>try\<close> block, and the \<^verbatim>\<open>catch\<close>, which answers
  500 (no response has been sent when the block throws).
\<close>

definition webhook_post :: "database \<Rightarrow> string \<Rightarrow> json \<Rightarrow> effect list \<times> http_response" where
  "webhook_post db now reqbody =
     (let timestamp = take 19 (replace_first ''T'' '' '' now);
          logs = [LogReceived timestamp, LogBody reqbody]
      in case webhook_post_try db now reqbody of
           (effs, Inr response) \<Rightarrow> (logs @ effs, response)
         | (effs, Inl err) \<Rightarrow>
             (logs @ effs, \<lparr>status = 500, body = Send (JStr ''Error processing webhook'')\<rparr>))"

subsection \<open>POST /api/send-bulk-messages\<close>

text \<open>Lines 115 to 137: the inner \<^verbatim>\<open>try\<close> block for one element of \<^verbatim>\<open>messages\<close>; its value
  is the entry pushed on \<^verbatim>\<open>results\<close>.\<close>

definition bulk_try ::
  "env \<Rightarrow> network \<Rightarrow> database \<Rightarrow> string \<Rightarrow> json \<Rightarrow> effect list \<times> (js_error + json)" where
  "bulk_try e net db now msgData =
     (case get_prop msgData ''to'' of
        Inl err \<Rightarrow> ([], Inl err)
      | Inr to \<Rightarrow>
          (case sendTextMessage_app e net to (opt_prop msgData ''body'') of
             (reqs, Inl err) \<Rightarrow> (map Post reqs, Inl err)
           | (reqs, Inr whatsappResponse) \<Rightarrow>
               (case get_prop whatsappResponse ''messages'' of
                  Inl err \<Rightarrow> (map Post reqs, Inl err)
                | Inr wm \<Rightarrow>
                    (let wid = opt_prop (opt_index0 wm) ''id'';
                         row =
                           JObj [(''invitee_id'', js_or (opt_prop msgData ''inviteeId'') JNull),
                                 (''template_id'', js_or (opt_prop msgData ''templateId'') JNull),
                                 (''message_body'', opt_prop msgData ''body''),
                                 (''sent_at'', JStr now),
                                 (''status'', JStr ''sent''),
                                 (''whatsapp_message_id'', js_or wid JNull)];
                         messageRecord = insert_history db row
                     in (map Post reqs @ [DbInsert ''message_history'' row],
                         Inr (JObj [(''to'', to),
                                    (''whatsappMessageId'', wid),
                                    (''messageHistoryId'',
                                     opt_prop (opt_index0 messageRecord) ''id'')]))))))"

text \<open>
  The loop, with the two arrays it pushes on. The \<^verbatim>\<open>catch\<close> of an element reads
  \<^verbatim>\<open>msgData.to\<close> again, which throws out of the loop on a nullish element; otherwise the
  loop waits a second and goes on.
\<close>

fun bulk_loop ::
  "env \<Rightarrow> network \<Rightarrow> database \<Rightarrow> string \<Rightarrow> json list \<Rightarrow> json list \<Rightarrow> (json \<times> js_error) list \<Rightarrow>
     effect list \<times> (js_error + json list \<times> (json \<times> js_error) list)" where
  "bulk_loop e net db now [] results errors = ([], Inr (results, errors))"
| "bulk_loop e net db now (msgData # rest) results errors =
     (case bulk_try e net db now msgData of
        (effs, Inr entry) \<Rightarrow>
          (case bulk_loop e net db now rest (results @ [entry]) errors of
             (effs', r) \<Rightarrow> (effs @ [Sleep 1000] @ effs', r))
      | (effs, Inl err) \<Rightarrow>
          (case get_prop msgData ''to'' of
             Inl err' \<Rightarrow> (effs, Inl err')
           | Inr to \<Rightarrow>
               (case bulk_loop e net db now rest results (errors @ [(to, err)]) of
                  (effs', r) \<Rightarrow> (effs @ [Sleep 1000] @ effs', r))))"

text \<open>The handler: \<^verbatim>\<open>const { messages } = req.body\<close> throws on a nullish body, the loop on
  a \<^verbatim>\<open>messages\<close> that is not iterable; the outer \<^verbatim>\<open>catch\<close> answers 500.\<close>

definition send_bulk ::
  "env \<Rightarrow> network \<Rightarrow> database \<Rightarrow> string \<Rightarrow> json \<Rightarrow> effect list \<times> http_response" where
  "send_bulk e net db now reqbody =
     (case get_prop reqbody ''messages'' of
        Inl err \<Rightarrow> ([], \<lparr>status = 500, body = FailureJson err\<rparr>)
      | Inr messages \<Rightarrow>
          (case iterate messages of
             Inl err \<Rightarrow> ([], \<lparr>status = 500, body = FailureJson err\<rparr>)
           | Inr ms \<Rightarrow>
               (case bulk_loop e net db now ms [] [] of
                  (effs, Inl err) \<Rightarrow> (effs, \<lparr>status = 500, body = FailureJson err\<rparr>)
                | (effs, Inr (results, errors)) \<Rightarrow>
                    (effs, \<lparr>status = 200, body = BulkJson results errors\<rparr>))))"

section \<open>Spec-side readings used in the statements\<close>

text \<open>
  The bulk handler's report, read off the list of messages: the entries of the messages whose
  \<^verbatim>\<open>try\<close> block returns, and the recipients and errors of those whose block throws.
\<close>

definition bulk_results :: "env \<Rightarrow> network \<Rightarrow> database \<Rightarrow> string \<Rightarrow> json list \<Rightarrow> json list" where
  "bulk_results e net db now ms =
     List.map_filter
       (\<lambda>m. case snd (bulk_try e net db now m) of Inr entry \<Rightarrow> Some entry | Inl err \<Rightarrow> None) ms"

definition bulk_errors ::
  "env \<Rightarrow> network \<Rightarrow> database \<Rightarrow> string \<Rightarrow> json list \<Rightarrow> (json \<times> js_error) list" where
  "bulk_errors e net db now ms =
     List.map_filter
       (\<lambda>m. case snd (bulk_try e net db now m) of
               Inl err \<Rightarrow> Some (opt_prop m ''to'', err)
             | Inr entry \<Rightarrow> None) ms"

definition bulk_effects :: "env \<Rightarrow> network \<Rightarrow> database \<Rightarrow> string \<Rightarrow> json list \<Rightarrow> effect list" where
  "bulk_effects e net db now ms =
     concat (map (\<lambda>m. fst (bulk_try e net db now m) @ [Sleep 1000]) ms)"

definition is_update :: "effect \<Rightarrow> bool" where
  "is_update eff = (case eff of DbUpdate tbl changes key \<Rightarrow> True | _ \<Rightarrow> False)"

definition received_log :: "string \<Rightarrow> json \<Rightarrow> effect list" where
  "received_log now reqbody =
     [LogReceived (take 19 (replace_first ''T'' '' '' now)), LogBody reqbody]"

definition status_of :: "json \<Rightarrow> status_update" where
  "status_of s =
     \<lparr>su_id = opt_prop s ''id'',
      su_status = opt_prop s ''status'',
      su_timestamp = opt_prop s ''timestamp'',
      su_conversation = opt_prop s ''conversation'',
      su_pricing = opt_prop s ''pricing'',
      su_errors = opt_prop s ''errors''\<rparr>"

text \<open>The text of the inbound message as the POST handler reads it, when it reads a string.\<close>

definition inbound_text :: "json \<Rightarrow> string option" where
  "inbound_text reqbody =
     (case webhook_value reqbody of
        Inr v \<Rightarrow>
          (case get_prop v ''messages'' of
             Inr ms \<Rightarrow>
               (case index0 ms of
                  Inr message \<Rightarrow>
                    (case text_body message of Inr (JStr txt) \<Rightarrow> Some txt | _ \<Rightarrow> None)
                | Inl err \<Rightarrow> None)
           | Inl err \<Rightarrow> None)
      | Inl err \<Rightarrow> None)"

subsection \<open>Sample requests\<close>

text \<open>
  The provider's envelope around a \<^verbatim>\<open>value\<close>, a delivery report with two statuses, a text
  message and an image message, a datastore whose lookup finds the given rows, a network
  that accepts every recipient but one, and a configured environment.
\<close>

definition sample_now :: string where
  "sample_now = ''2024-05-01T10:00:00.000Z''"

definition envelope :: "json \<Rightarrow> json" where
  "envelope v =
     JObj [(''object'', JStr ''whatsapp_business_account''),
           (''entry'',
            JArr [JObj [(''id'', JStr ''102290129340398''),
                        (''changes'',
                         JArr [JObj [(''field'', JStr ''messages''), (''value'', v)]])]])]"

definition two_statuses :: "json list" where
  "two_statuses =
     [JObj [(''id'', JStr ''wamid.A''), (''status'', JStr ''sent''),
            (''timestamp'', JStr ''1714557600'')],
      JObj [(''id'', JStr ''wamid.A''), (''status'', JStr ''delivered''),
            (''timestamp'', JStr ''1714557605'')]]"

definition text_message :: "string \<Rightarrow> json" where
  "text_message txt =
     JObj [(''from'', JStr ''15550001111''), (''id'', JStr ''wamid.B''),
           (''timestamp'', JStr ''1714557700''), (''type'', JStr ''text''),
           (''text'', JObj [(''body'', JStr txt)])]"

definition image_message :: json where
  "image_message =
     JObj [(''from'', JStr ''15550001111''), (''id'', JStr ''wamid.C''),
           (''timestamp'', JStr ''1714557800''), (''type'', JStr ''image''),
           (''image'', JObj [(''id'', JStr ''900''), (''mime_type'', JStr ''image/jpeg'')])]"

definition sample_db :: "invitee list \<Rightarrow> database" where
  "sample_db rows =
     \<lparr>select_invitees = (\<lambda>phone. \<lparr>lr_data = Some rows, lr_error = False\<rparr>),
      insert_history = (\<lambda>row. JArr [JObj [(''id'', JNum 41)]])\<rparr>"

definition sample_invitee :: invitee where
  "sample_invitee = \<lparr>inv_id = JNum 7, inv_additional_info = None\<rparr>"

definition sample_env :: env where
  "sample_env =
     (\<lambda>k. if k = ''WHATSAPP_PHONE_NUMBER_ID'' then Some ''106540352242922''
           else if k = ''WHATSAPP_ACCESS_TOKEN'' then Some ''EAAG''
           else None)"

definition sample_net :: network where
  "sample_net request =
     (if opt_prop (payload request) ''to'' = JStr ''15550002222''
      then Inl (AxiosError ''Request failed with status code 400'')
      else Inr (JObj [(''messages'', JArr [JObj [(''id'', JStr ''wamid.OUT'')]])]))"

definition sample_messages :: "json list" where
  "sample_messages =
     [JObj [(''to'', JStr ''whatsapp:+15550001111''), (''body'', JStr ''You are invited'')],
      JObj [(''to'', JStr ''15550002222''), (''body'', JStr ''You are invited'')],
      JObj [(''to'', JStr ''15550003333''), (''body'', JStr ''You are invited''),
            (''inviteeId'', JNum 9)]]"

text \<open>The same messages with a \<^verbatim>\<open>null\<close> element before the last, and a network that answers
  every accepted request with the body \<^verbatim>\<open>null\<close>.\<close>

definition sample_messages_with_null :: "json list" where
  "sample_messages_with_null =
     [JObj [(''to'', JStr ''whatsapp:+15550001111''), (''body'', JStr ''You are invited'')],
      JObj [(''to'', JStr ''15550002222''), (''body'', JStr ''You are invited'')],
      JNull,
      JObj [(''to'', JStr ''15550003333''), (''body'', JStr ''You are invited''),
            (''inviteeId'', JNum 9)]]"

definition null_net :: network where
  "null_net request =
     (if opt_prop (payload request) ''to'' = JStr ''15550002222''
      then Inl (AxiosError ''Request failed with status code 400'')
      else Inr JNull)"

section \<open>The classifier's patterns and delimited keywords\<close>

lemma kw_shape:
  "rmatch (Seq (Alt Bol WordB) (Seq K (Alt WordB Eol))) s i \<noteq> [] \<longleftrightarrow>
     (i = 0 \<or> word_boundary s i) \<and> (\<exists>j\<in>set (rmatch K s i). word_boundary s j \<or> j = length s)"
  by auto

lemma take_drop_eq_nth:
  assumes "take (length w) (drop i s) = w" "k < length w"
  shows "i + k < length s \<and> s ! (i + k) = w ! k"
proof -
  have "length (take (length w) (drop i s)) = length w" using assms(1) by simp
  then have "min (length s - i) (length w) = length w" by simp
  then have len: "i + length w \<le> length s" using assms(2) by arith
  have "w ! k = take (length w) (drop i s) ! k" using assms(1) by simp
  also have "\<dots> = s ! (i + k)" using assms(2) len by simp
  finally show ?thesis using len assms(2) by simp
qed

text \<open>A keyword that begins and ends with a word character: the pattern's anchors and word
  boundaries around it say that no word character is next to it.\<close>

lemma delimited_iff:
  assumes "w \<noteq> []" "is_word_char (hd w)" "is_word_char (last w)"
  shows "(i = 0 \<or> word_boundary s i) \<and> take (length w) (drop i s) = w \<and>
           (word_boundary s (i + length w) \<or> i + length w = length s)
         \<longleftrightarrow> delimited_at w s i"
proof (cases "take (length w) (drop i s) = w")
  case False
  then show ?thesis by (simp add: delimited_at_def)
next
  case True
  from assms(1) have pos: "0 < length w" by simp
  from take_drop_eq_nth[OF True pos] have a: "i < length s" "s ! i = w ! 0" by simp_all
  have "length w - 1 < length w" using pos by arith
  from take_drop_eq_nth[OF True this]
  have b: "i + (length w - 1) < length s" "s ! (i + (length w - 1)) = w ! (length w - 1)"
    by simp_all
  have e: "i + length w - 1 = i + (length w - 1)" using pos by arith
  have wi: "word_at s i" using a assms by (simp add: word_at_def hd_conv_nth)
  have we: "word_at s (i + length w - 1)"
    using b assms unfolding e by (simp add: word_at_def last_conv_nth)
  have wb1: "word_boundary s i \<longleftrightarrow> \<not> (0 < i \<and> word_at s (i - 1))"
    using wi by (simp add: word_boundary_def)
  have wb2: "word_boundary s (i + length w) \<longleftrightarrow> \<not> word_at s (i + length w)"
    using we pos by (simp add: word_boundary_def)
  have end_len: "i + length w = length s \<Longrightarrow> \<not> word_at s (i + length w)"
    by (simp add: word_at_def)
  show ?thesis using True wb1 wb2 end_len
    by (auto simp: delimited_at_def)
qed

lemma re_test_iff: "re_test r s \<longleftrightarrow> (\<exists>i\<le>length s. rmatch r s i \<noteq> [])"
  unfolding re_test_def list_ex_iff by (auto simp: less_Suc_eq_le simp del: upt_Suc)

lemma contains_word_iff: "contains_word kw t \<longleftrightarrow> (\<exists>i\<le>length t. delimited_at kw t i)"
  unfolding contains_word_def list_ex_iff by (auto simp: less_Suc_eq_le simp del: upt_Suc)

lemma word_chars:
  "is_word_char CHR ''y''" "is_word_char CHR ''s''" "is_word_char CHR ''a''"
  "is_word_char CHR ''g''" "is_word_char CHR ''w''" "is_word_char CHR ''d''"
  "is_word_char CHR ''n''" "is_word_char CHR ''o''" "is_word_char CHR ''c''"
  "is_word_char CHR ''m''" "is_word_char CHR ''e''" "is_word_char CHR ''p''"
  by (simp_all add: is_word_char_def)

lemma alt3_shape:
  assumes "a \<noteq> []" "is_word_char (hd a)" "is_word_char (last a)"
    and "b \<noteq> []" "is_word_char (hd b)" "is_word_char (last b)"
    and "c \<noteq> []" "is_word_char (hd c)" "is_word_char (last c)"
  shows "rmatch (Seq (Alt Bol WordB) (Seq (Alt (Lit a) (Alt (Lit b) (Lit c))) (Alt WordB Eol))) t i
           \<noteq> []
     \<longleftrightarrow> delimited_at a t i \<or> delimited_at b t i \<or> delimited_at c t i"
proof -
  have "rmatch (Seq (Alt Bol WordB) (Seq (Alt (Lit a) (Alt (Lit b) (Lit c))) (Alt WordB Eol))) t i
          \<noteq> []
    \<longleftrightarrow> ((i = 0 \<or> word_boundary t i) \<and> take (length a) (drop i t) = a \<and>
           (word_boundary t (i + length a) \<or> i + length a = length t))
       \<or> ((i = 0 \<or> word_boundary t i) \<and> take (length b) (drop i t) = b \<and>
           (word_boundary t (i + length b) \<or> i + length b = length t))
       \<or> ((i = 0 \<or> word_boundary t i) \<and> take (length c) (drop i t) = c \<and>
           (word_boundary t (i + length c) \<or> i + length c = length t))"
    unfolding kw_shape by auto
  then show ?thesis
    unfolding delimited_iff[OF assms(1-3)] delimited_iff[OF assms(4-6)]
      delimited_iff[OF assms(7-9)] .
qed

lemma alt2_shape:
  assumes "a \<noteq> []" "is_word_char (hd a)" "is_word_char (last a)"
    and "b \<noteq> []" "is_word_char (hd b)" "is_word_char (last b)"
  shows "rmatch (Seq (Alt Bol WordB) (Seq (Alt (Lit a) (Lit b)) (Alt WordB Eol))) t i \<noteq> []
     \<longleftrightarrow> delimited_at a t i \<or> delimited_at b t i"
proof -
  have "rmatch (Seq (Alt Bol WordB) (Seq (Alt (Lit a) (Lit b)) (Alt WordB Eol))) t i \<noteq> []
    \<longleftrightarrow> ((i = 0 \<or> word_boundary t i) \<and> take (length a) (drop i t) = a \<and>
           (word_boundary t (i + length a) \<or> i + length a = length t))
       \<or> ((i = 0 \<or> word_boundary t i) \<and> take (length b) (drop i t) = b \<and>
           (word_boundary t (i + length b) \<or> i + length b = length t))"
    unfolding kw_shape by auto
  then show ?thesis
    unfolding delimited_iff[OF assms(1-3)] delimited_iff[OF assms(4-6)] .
qed

lemma confirmed_re_iff:
  "re_test confirmed_re t \<longleftrightarrow> (\<exists>kw\<in>set confirmed_keywords. contains_word kw t)"
proof -
  have "rmatch confirmed_re t i \<noteq> [] \<longleftrightarrow>
      delimited_at ''yes'' t i \<or> delimited_at ''attending'' t i \<or>
      delimited_at ''will attend'' t i" for i
    unfolding confirmed_re_def by (rule alt3_shape) (simp_all add: word_chars)
  then show ?thesis
    unfolding re_test_iff contains_word_iff confirmed_keywords_def by auto
qed

lemma declined_re_iff:
  "re_test declined_re t \<longleftrightarrow> (\<exists>kw\<in>set declined_keywords. contains_word kw t)"
proof -
  have "rmatch declined_re t i \<noteq> [] \<longleftrightarrow>
      delimited_at ''no'' t i \<or> delimited_at ''not attending'' t i \<or>
      delimited_at ''cannot attend'' t i" for i
    unfolding declined_re_def by (rule alt3_shape) (simp_all add: word_chars)
  then show ?thesis
    unfolding re_test_iff contains_word_iff declined_keywords_def by auto
qed

lemma maybe_re_iff:
  "re_test maybe_re t \<longleftrightarrow> (\<exists>kw\<in>set maybe_keywords. contains_word kw t)"
proof -
  have "rmatch maybe_re t i \<noteq> [] \<longleftrightarrow>
      delimited_at ''maybe'' t i \<or> delimited_at ''possibly'' t i" for i
    unfolding maybe_re_def by (rule alt2_shape) (simp_all add: word_chars)
  then show ?thesis
    unfolding re_test_iff contains_word_iff maybe_keywords_def by auto
qed

subsection \<open>Characters outside ASCII do not matter to the classifier\<close>

lemma word_is_ascii: "is_word_char c \<Longrightarrow> is_ascii c"
  unfolding is_word_char_def is_ascii_def by auto

lemma same_ascii_sym: "same_ascii s t \<Longrightarrow> same_ascii t s"
  by (induction rule: same_ascii.induct) (auto intro: same_ascii.intros)

lemma same_ascii_head:
  "same_ascii s t \<Longrightarrow> (s = [] \<longleftrightarrow> t = []) \<and> (s \<noteq> [] \<longrightarrow> is_word_char (hd s) = is_word_char (hd t))"
  by (induction rule: same_ascii.induct) (auto dest: word_is_ascii)

lemma same_ascii_ascii_head:
  "same_ascii s t \<Longrightarrow> s \<noteq> [] \<Longrightarrow> is_ascii (hd s) \<Longrightarrow>
     t \<noteq> [] \<and> hd t = hd s \<and> same_ascii (tl s) (tl t)"
  by (induction rule: same_ascii.induct) auto

lemma same_ascii_prefix:
  "\<forall>c\<in>set k. is_ascii c \<Longrightarrow> same_ascii (k @ p) t \<Longrightarrow> \<exists>p'. t = k @ p' \<and> same_ascii p p'"
proof (induction k arbitrary: t)
  case Nil
  then show ?case by simp
next
  case (Cons x k)
  from same_ascii_ascii_head[OF Cons.prems(2)] Cons.prems(1)
  have t: "t \<noteq> []" "hd t = x" "same_ascii (k @ p) (tl t)" by simp_all
  from Cons.IH[OF _ t(3)] Cons.prems(1) obtain p' where "tl t = k @ p'" "same_ascii p p'" by auto
  with t show ?case by (cases t) auto
qed


lemma occurs_transfer:
  assumes "same_ascii s t" "kw \<noteq> []" "\<forall>c\<in>set kw. is_ascii c"
  shows "occurs b kw s \<Longrightarrow> occurs b kw t"
  using assms(1)
proof (induction arbitrary: b rule: same_ascii.induct)
  case empty
  then show ?case using assms(2) by (simp add: occurs_def)
next
  case (keep c s t)
  from keep.prems obtain pre post where d: "c # s = pre @ kw @ post"
    and l: "if pre = [] then \<not> b else \<not> is_word_char (last pre)"
    and r: "post = [] \<or> \<not> is_word_char (hd post)"
    unfolding occurs_def by blast
  show ?case
  proof (cases pre)
    case Nil
    with d assms(2) obtain k where kw: "kw = c # k" and s: "s = k @ post"
      by (cases kw) auto
    from same_ascii_prefix[of k post t] keep.hyps(2) assms(3) kw s
    obtain p' where t: "t = k @ p'" and pp: "same_ascii post p'" by auto
    from same_ascii_head[OF pp] r have "p' = [] \<or> \<not> is_word_char (hd p')" by auto
    moreover have "c # t = [] @ kw @ p'" using kw t by simp
    ultimately show ?thesis using l Nil unfolding occurs_def by (metis (full_types))
  next
    case (Cons x pre')
    with d have x: "x = c" and s: "s = pre' @ kw @ post" by simp_all
    have "occurs (is_word_char c) kw s"
      unfolding occurs_def using s l r Cons x by (intro exI[of _ pre'] exI[of _ post]) auto
    from keep.IH[OF this] obtain p2 q2 where t: "t = p2 @ kw @ q2"
      and l2: "if p2 = [] then \<not> is_word_char c else \<not> is_word_char (last p2)"
      and r2: "q2 = [] \<or> \<not> is_word_char (hd q2)"
      unfolding occurs_def by blast
    show ?thesis
      unfolding occurs_def using t l2 r2
      by (intro exI[of _ "c # p2"] exI[of _ q2]) (auto split: if_splits)
  qed
next
  case (swap a b' s t)
  from swap.prems obtain pre post where d: "a # s = pre @ kw @ post"
    and l: "if pre = [] then \<not> b else \<not> is_word_char (last pre)"
    and r: "post = [] \<or> \<not> is_word_char (hd post)"
    unfolding occurs_def by blast
  have "pre \<noteq> []"
  proof
    assume "pre = []"
    with d assms(2) have "a = hd kw" by (cases kw) auto
    with assms(2,3) swap.hyps(1) show False by (cases kw) auto
  qed
  then obtain pre' where pre: "pre = a # pre'" and s: "s = pre' @ kw @ post"
    using d by (cases pre) auto
  have "occurs False kw s"
    unfolding occurs_def using s l r pre by (intro exI[of _ pre'] exI[of _ post]) auto
  from swap.IH[OF this] obtain p2 q2 where t: "t = p2 @ kw @ q2"
      and l2: "if p2 = [] then \<not> False else \<not> is_word_char (last p2)"
      and r2: "q2 = [] \<or> \<not> is_word_char (hd q2)"
    unfolding occurs_def by blast
  have nb: "\<not> is_word_char b'" using swap.hyps(2) word_is_ascii by blast
  show ?case
    unfolding occurs_def using t l2 r2 nb
    by (intro exI[of _ "b' # p2"] exI[of _ q2]) (auto split: if_splits)
next
  case (more_left a a' s t)
  from more_left.prems obtain pre post where d: "a # a' # s = pre @ kw @ post"
    and l: "if pre = [] then \<not> b else \<not> is_word_char (last pre)"
    and r: "post = [] \<or> \<not> is_word_char (hd post)"
    unfolding occurs_def by blast
  have "pre \<noteq> []"
  proof
    assume "pre = []"
    with d assms(2) have "a = hd kw" by (cases kw) auto
    with assms(2,3) more_left.hyps(1) show False by (cases kw) auto
  qed
  then obtain pre' where pre: "pre = a # pre'" and s: "a' # s = pre' @ kw @ post"
    using d by (cases pre) auto
  have "pre' \<noteq> []"
  proof
    assume "pre' = []"
    with s assms(2) have "a' = hd kw" by (cases kw) auto
    with assms(2,3) more_left.hyps(2) show False by (cases kw) auto
  qed
  then have "occurs b kw (a' # s)"
    unfolding occurs_def using s l r pre by (intro exI[of _ pre'] exI[of _ post]) auto
  from more_left.IH[OF this] show ?case .
next
  case (more_right b1 b' s t)
  from more_right.IH[OF more_right.prems] obtain p2 q2 where t: "b' # t = p2 @ kw @ q2"
      and l2: "if p2 = [] then \<not> b else \<not> is_word_char (last p2)"
      and r2: "q2 = [] \<or> \<not> is_word_char (hd q2)"
    unfolding occurs_def by blast
  have "p2 \<noteq> []"
  proof
    assume "p2 = []"
    with t assms(2) have "b' = hd kw" by (cases kw) auto
    with assms(2,3) more_right.hyps(2) show False by (cases kw) auto
  qed
  then show ?case
    unfolding occurs_def using t l2 r2
    by (intro exI[of _ "b1 # p2"] exI[of _ q2]) auto
qed


lemma contains_word_occurs: "contains_word kw t \<longleftrightarrow> occurs False kw t"
proof
  assume "contains_word kw t"
  then obtain i where i: "i \<le> length t" and d: "delimited_at kw t i"
    unfolding contains_word_iff by blast
  let ?pre = "take i t" and ?post = "drop (i + length kw) t"
  from d have k: "take (length kw) (drop i t) = kw"
    and l: "\<not> (0 < i \<and> word_at t (i - 1))"
    and r: "\<not> word_at t (i + length kw)"
    unfolding delimited_at_def by simp_all
  have "drop i t = take (length kw) (drop i t) @ drop (length kw) (drop i t)"
    by (simp only: append_take_drop_id)
  then have "drop i t = kw @ ?post" using k by (simp add: add.commute)
  then have "?pre @ drop i t = ?pre @ kw @ ?post" by simp
  then have split: "t = ?pre @ kw @ ?post" by (simp only: append_take_drop_id)
  have left: "if ?pre = [] then \<not> False else \<not> is_word_char (last ?pre)"
  proof (cases "i = 0")
    case True
    then show ?thesis by simp
  next
    case False
    then have "take i t \<noteq> []" using i by auto
    then have "last ?pre = take i t ! (length (take i t) - 1)" by (rule last_conv_nth)
    then have "last ?pre = t ! (i - 1)" using i False by (simp add: min_def)
    moreover have "i - 1 < length t" using i False by arith
    ultimately show ?thesis using l False by (simp add: word_at_def)
  qed
  have right: "?post = [] \<or> \<not> is_word_char (hd ?post)"
  proof (cases "i + length kw < length t")
    case True
    then have "hd ?post = t ! (i + length kw)"
      by (simp add: hd_drop_conv_nth)
    then show ?thesis using r True by (simp add: word_at_def)
  next
    case False
    then show ?thesis by simp
  qed
  from split left right show "occurs False kw t" unfolding occurs_def by blast
next
  assume "occurs False kw t"
  then obtain pre post where t: "t = pre @ kw @ post"
    and l: "if pre = [] then \<not> False else \<not> is_word_char (last pre)"
    and r: "post = [] \<or> \<not> is_word_char (hd post)"
    unfolding occurs_def by blast
  have a: "take (length kw) (drop (length pre) t) = kw" using t by simp
  have b: "\<not> (0 < length pre \<and> word_at t (length pre - 1))"
  proof (cases "pre = []")
    case True
    then show ?thesis by simp
  next
    case False
    then have "t ! (length pre - 1) = last pre"
      using t by (simp add: nth_append last_conv_nth)
    then show ?thesis using l False by (simp add: word_at_def)
  qed
  have c: "\<not> word_at t (length pre + length kw)"
  proof (cases "post = []")
    case True
    then show ?thesis using t by (simp add: word_at_def)
  next
    case False
    then have "t ! (length pre + length kw) = hd post"
      using t by (simp add: nth_append hd_conv_nth)
    then show ?thesis using r False by (simp add: word_at_def)
  qed
  have "length pre \<le> length t" using t by simp
  with a b c show "contains_word kw t"
    unfolding contains_word_iff delimited_at_def by blast
qed

lemma contains_word_same_ascii:
  assumes "same_ascii s t" "kw \<noteq> []" "\<forall>c\<in>set kw. is_ascii c"
  shows "contains_word kw s = contains_word kw t"
  using occurs_transfer[OF assms] occurs_transfer[OF same_ascii_sym[OF assms(1)] assms(2,3)]
  unfolding contains_word_occurs by blast

lemma keywords_ascii:
  "\<forall>kw\<in>set (confirmed_keywords @ declined_keywords @ maybe_keywords).
     kw \<noteq> [] \<and> (\<forall>c\<in>set kw. is_ascii c)"
  by (simp add: confirmed_keywords_def declined_keywords_def maybe_keywords_def is_ascii_def)

lemma classify_lower_same_ascii:
  assumes "same_ascii s t"
  shows "classify_lower s = classify_lower t"
proof -
  have "contains_word kw s = contains_word kw t"
    if "kw \<in> set (confirmed_keywords @ declined_keywords @ maybe_keywords)" for kw
    using contains_word_same_ascii[OF assms] keywords_ascii that by blast
  then have "re_test confirmed_re s = re_test confirmed_re t"
    "re_test declined_re s = re_test declined_re t"
    "re_test maybe_re s = re_test maybe_re t"
    unfolding confirmed_re_iff declined_re_iff maybe_re_iff by auto
  then show ?thesis by (simp add: classify_lower_def)
qed

text \<open>
  Lower-casing comes before the match. In \<^verbatim>\<open>yes\<close> followed by the Kelvin sign and
  \<^verbatim>\<open> no\<close>, the word \<^verbatim>\<open>yes\<close> is delimited, but the lower-cased text is \<^verbatim>\<open>yesk no\<close>, in
  which only \<^verbatim>\<open>no\<close> is: the reply is classified as declined.
\<close>

lemma classify_kelvin_sign:
  "contains_word ''yes'' (''yes'' @ [CHR 0xE2, CHR 0x84, CHR 0xAA] @ '' no'') \<and>
   toLowerCase (''yes'' @ [CHR 0xE2, CHR 0x84, CHR 0xAA] @ '' no'') = ''yesk no'' \<and>
   \<not> contains_word ''yes'' ''yesk no'' \<and>
   classify (''yes'' @ [CHR 0xE2, CHR 0x84, CHR 0xAA] @ '' no'') = Declined"
  by code_simp

text \<open>
  C3. A text whose lower-cased form, which is what the handler matches, holds a delimited
  keyword of the confirmed group and a delimited keyword of the declined group is classified
  as confirmed, although the declined pattern matches it as well: the confirmed pattern is
  tested first.
\<close>

theorem classify_confirmed_first:
  assumes "kc \<in> set confirmed_keywords" "contains_word kc (toLowerCase messageText)"
    and "kd \<in> set declined_keywords" "contains_word kd (toLowerCase messageText)"
  shows "classify messageText = Confirmed \<and> re_test declined_re (toLowerCase messageText)"
proof -
  have "re_test confirmed_re (toLowerCase messageText)"
    using assms(1,2) confirmed_re_iff by blast
  moreover have "re_test declined_re (toLowerCase messageText)"
    using assms(3,4) declined_re_iff by blast
  ultimately show ?thesis by (simp add: classify_def classify_lower_def)
qed

theorem classify_confirmed_first_witness:
  "''yes'' \<in> set confirmed_keywords \<and> contains_word ''yes'' (toLowerCase ''yes but no'') \<and>
   ''no'' \<in> set declined_keywords \<and> contains_word ''no'' (toLowerCase ''yes but no'') \<and>
   classify ''yes but no'' = Confirmed"
proof -
  have a: "''yes'' \<in> set confirmed_keywords" by (simp add: confirmed_keywords_def)
  have b: "contains_word ''yes'' (toLowerCase ''yes but no'')" by code_simp
  have c: "''no'' \<in> set declined_keywords" by (simp add: declined_keywords_def)
  have d: "contains_word ''no'' (toLowerCase ''yes but no'')" by code_simp
  from classify_confirmed_first[OF a b c d] a b c d show ?thesis by simp
qed

text \<open>
  C4. A pattern of the classifier matches only at a delimited keyword of its group: a text in
  which no keyword of the group occurs with non-word characters (or the ends of the text)
  on both sides is not matched by the group's pattern, however often the keyword occurs
  inside longer words.
\<close>

theorem keyword_inside_word_no_match:
  assumes "(r, kws) \<in> set rsvp_groups" "\<forall>kw\<in>set kws. \<not> contains_word kw t"
  shows "\<not> re_test r t"
  using assms confirmed_re_iff declined_re_iff maybe_re_iff
  by (auto simp: rsvp_groups_def)

theorem keyword_inside_word_no_match_witness:
  "list_ex (\<lambda>i. take 3 (drop i (toLowerCase ''yesterday is a day'')) = ''yes'')
     [0..<length ''yesterday is a day''] \<and>
   \<not> re_test confirmed_re (toLowerCase ''yesterday is a day'') \<and>
   \<not> re_test declined_re (toLowerCase ''yesterday is a day'') \<and>
   \<not> re_test maybe_re (toLowerCase ''yesterday is a day'') \<and>
   classify ''yesterday is a day'' = Pending"
proof -
  let ?t = "toLowerCase ''yesterday is a day''"
  have sub: "list_ex (\<lambda>i. take 3 (drop i ?t) = ''yes'') [0..<length ''yesterday is a day'']"
    by code_simp
  have g1: "(confirmed_re, confirmed_keywords) \<in> set rsvp_groups"
    and g2: "(declined_re, declined_keywords) \<in> set rsvp_groups"
    and g3: "(maybe_re, maybe_keywords) \<in> set rsvp_groups"
    by (simp_all add: rsvp_groups_def)
  have "list_all (\<lambda>kw. \<not> contains_word kw ?t) confirmed_keywords" by code_simp
  then have k1: "\<forall>kw\<in>set confirmed_keywords. \<not> contains_word kw ?t"
    by (simp add: list_all_iff)
  have "list_all (\<lambda>kw. \<not> contains_word kw ?t) declined_keywords" by code_simp
  then have k2: "\<forall>kw\<in>set declined_keywords. \<not> contains_word kw ?t"
    by (simp add: list_all_iff)
  have "list_all (\<lambda>kw. \<not> contains_word kw ?t) maybe_keywords" by code_simp
  then have k3: "\<forall>kw\<in>set maybe_keywords. \<not> contains_word kw ?t"
    by (simp add: list_all_iff)
  note n1 = keyword_inside_word_no_match[OF g1 k1]
    and n2 = keyword_inside_word_no_match[OF g2 k2]
    and n3 = keyword_inside_word_no_match[OF g3 k3]
  from sub n1 n2 n3 show ?thesis by (simp add: classify_def classify_lower_def)
qed

section \<open>The verification endpoint\<close>

text \<open>
  C6. The GET handler answers 200 with the value of \<^verbatim>\<open>hub.challenge\<close> as the body exactly
  when \<^verbatim>\<open>hub.mode\<close> is the string \<^verbatim>\<open>subscribe\<close> and \<^verbatim>\<open>hub.verify_token\<close> is strictly
  equal to the configured verify token, and it answers 403 exactly when that fails. (Strict
  equality also holds between a missing parameter and an unset variable.)
\<close>

theorem webhook_get_verifies:
  "(snd (webhook_get e query) = \<lparr>status = 200, body = Send (query ''hub.challenge'')\<rparr>
      \<longleftrightarrow> query ''hub.mode'' = JStr ''subscribe'' \<and>
          strict_eq_env (query ''hub.verify_token'') (e ''WHATSAPP_WEBHOOK_VERIFY_TOKEN'')) \<and>
   (snd (webhook_get e query) = \<lparr>status = 403, body = Send (JStr ''Forbidden'')\<rparr>
      \<longleftrightarrow> \<not> (query ''hub.mode'' = JStr ''subscribe'' \<and>
          strict_eq_env (query ''hub.verify_token'') (e ''WHATSAPP_WEBHOOK_VERIFY_TOKEN'')))"
  by (simp add: webhook_get_def getWhatsAppConfig_def Let_def)

theorem webhook_get_verifies_witness:
  "snd (webhook_get
          (\<lambda>k. if k = ''WHATSAPP_WEBHOOK_VERIFY_TOKEN'' then Some ''s3cret'' else None)
          (\<lambda>k. if k = ''hub.mode'' then JStr ''subscribe''
                else if k = ''hub.verify_token'' then JStr ''s3cret''
                else if k = ''hub.challenge'' then JStr ''1158201444''
                else JUndefined))
     = \<lparr>status = 200, body = Send (JStr ''1158201444'')\<rparr> \<and>
   snd (webhook_get
          (\<lambda>k. if k = ''WHATSAPP_WEBHOOK_VERIFY_TOKEN'' then Some ''s3cret'' else None)
          (\<lambda>k. if k = ''hub.mode'' then JStr ''subscribe''
                else if k = ''hub.verify_token'' then JStr ''wrong''
                else if k = ''hub.challenge'' then JStr ''1158201444''
                else JUndefined))
     = \<lparr>status = 403, body = Send (JStr ''Forbidden'')\<rparr>"
  using
    webhook_get_verifies
      [of "\<lambda>k. if k = ''WHATSAPP_WEBHOOK_VERIFY_TOKEN'' then Some ''s3cret'' else None"
          "\<lambda>k. if k = ''hub.mode'' then JStr ''subscribe''
                else if k = ''hub.verify_token'' then JStr ''s3cret''
                else if k = ''hub.challenge'' then JStr ''1158201444''
                else JUndefined"]
    webhook_get_verifies
      [of "\<lambda>k. if k = ''WHATSAPP_WEBHOOK_VERIFY_TOKEN'' then Some ''s3cret'' else None"
          "\<lambda>k. if k = ''hub.mode'' then JStr ''subscribe''
                else if k = ''hub.verify_token'' then JStr ''wrong''
                else if k = ''hub.challenge'' then JStr ''1158201444''
                else JUndefined"]
  by (simp add: strict_eq_env_def)

section \<open>The outbound send\<close>

text \<open>
  C8. When the phone number id or the access token is unset or empty, both copies of
  \<open>sendTextMessage\<close> throw the error whose message names the missing WhatsApp
  configuration, and no request has been sent.
\<close>

theorem missing_config_fails_first:
  assumes "falsy_env (e ''WHATSAPP_PHONE_NUMBER_ID'') \<or> falsy_env (e ''WHATSAPP_ACCESS_TOKEN'')"
  shows "sendTextMessage_app e net to message =
           ([], Inl (Error ''WhatsApp configuration missing: phoneNumberId or accessToken'')) \<and>
         sendTextMessage_module e net to message =
           ([], Inl (Error ''WhatsApp configuration missing: phoneNumberId or accessToken''))"
  using assms
  by (auto simp: sendTextMessage_app_def sendTextMessage_module_def getWhatsAppConfig_def
      config_missing_def Let_def)

theorem missing_config_fails_first_witness:
  "falsy_env ((\<lambda>k. if k = ''WHATSAPP_PHONE_NUMBER_ID'' then Some ''106540352242922'' else None)
      ''WHATSAPP_ACCESS_TOKEN'') \<and>
   sendTextMessage_app
     (\<lambda>k. if k = ''WHATSAPP_PHONE_NUMBER_ID'' then Some ''106540352242922'' else None)
     (\<lambda>r. Inr (JObj [])) (JStr ''+15550001111'') (JStr ''hello'')
     = ([], Inl (Error ''WhatsApp configuration missing: phoneNumberId or accessToken'')) \<and>
   sendTextMessage_module
     (\<lambda>k. if k = ''WHATSAPP_PHONE_NUMBER_ID'' then Some ''106540352242922'' else None)
     (\<lambda>r. Inr (JObj [])) (JStr ''+15550001111'') (JStr ''hello'')
     = ([], Inl (Error ''WhatsApp configuration missing: phoneNumberId or accessToken''))"
proof -
  let ?e = "\<lambda>k. if k = ''WHATSAPP_PHONE_NUMBER_ID'' then Some ''106540352242922'' else None"
  have h: "falsy_env (?e ''WHATSAPP_ACCESS_TOKEN'')" by (simp add: falsy_env_def)
  then have "falsy_env (?e ''WHATSAPP_PHONE_NUMBER_ID'') \<or> falsy_env (?e ''WHATSAPP_ACCESS_TOKEN'')"
    by (rule disjI2)
  from missing_config_fails_first[OF this] h show ?thesis by blast
qed

lemma replace_first_keeps:
  assumes "c \<in> set s" "c \<notin> set p"
  shows "c \<in> set (replace_first p r s)"
  using assms
proof (induction s)
  case Nil
  then show ?case by simp
next
  case (Cons x xs)
  show ?case
  proof (cases "take (length p) (x # xs) = p")
    case True
    have "set (x # xs) = set (take (length p) (x # xs)) \<union> set (drop (length p) (x # xs))"
      by (metis append_take_drop_id set_append)
    with True Cons.prems have "c \<in> set (drop (length p) (x # xs))" by auto
    with True show ?thesis by simp
  next
    case False
    with Cons show ?thesis by auto
  qed
qed

lemma replace_first_single:
  "c \<in> set s \<Longrightarrow> Suc (length (replace_first [c] [] s)) = length s"
  by (induction s) auto

lemma sum_case_id: "(case x of Inl err \<Rightarrow> Inl err | Inr data \<Rightarrow> Inr data) = x"
  by (cases x) simp_all

text \<open>
  C9. With the phone number id and the access token configured and a string as recipient,
  each copy of \<open>sendTextMessage\<close> sends exactly one request and returns what the network
  answers to it. The entry point posts to the \<^verbatim>\<open>v18.0\<close> URL with the recipient stripped of
  the first \<^verbatim>\<open>whatsapp:\<close> and of the first plus sign; the module posts to the \<^verbatim>\<open>v22.0\<close>
  URL with the recipient stripped of the first \<^verbatim>\<open>whatsapp:\<close> only. So the two URLs always
  differ, the two destination numbers differ for every recipient that contains a plus sign,
  and the two functions are not equal.
\<close>

theorem send_copies_differ:
  assumes "e ''WHATSAPP_PHONE_NUMBER_ID'' = Some pid" "pid \<noteq> []"
    and "e ''WHATSAPP_ACCESS_TOKEN'' = Some tok" "tok \<noteq> []"
  shows
    "let ra = \<lparr>url = ''https://graph.facebook.com/v18.0/'' @ pid @ ''/messages'',
               payload = JObj [(''messaging_product'', JStr ''whatsapp''),
                               (''to'', JStr (replace_first ''+'' []
                                               (replace_first ''whatsapp:'' [] t))),
                               (''text'', JObj [(''body'', message)])],
               bearer = tok\<rparr>;
         rm = \<lparr>url = ''https://graph.facebook.com/v22.0/'' @ pid @ ''/messages'',
               payload = JObj [(''messaging_product'', JStr ''whatsapp''),
                               (''to'', JStr (replace_first ''whatsapp:'' [] t)),
                               (''type'', JStr ''text''),
                               (''text'', JObj [(''body'', message)])],
               bearer = tok\<rparr>
     in sendTextMessage_app e net (JStr t) message = ([ra], net ra) \<and>
        sendTextMessage_module e net (JStr t) message = ([rm], net rm) \<and>
        url ra \<noteq> url rm \<and>
        (CHR ''+'' \<in> set t \<longrightarrow> opt_prop (payload ra) ''to'' \<noteq> opt_prop (payload rm) ''to'') \<and>
        sendTextMessage_app \<noteq> sendTextMessage_module"
proof -
  let ?ra = "\<lparr>url = ''https://graph.facebook.com/v18.0/'' @ pid @ ''/messages'',
               payload = JObj [(''messaging_product'', JStr ''whatsapp''),
                               (''to'', JStr (replace_first ''+'' []
                                               (replace_first ''whatsapp:'' [] t))),
                               (''text'', JObj [(''body'', message)])],
               bearer = tok\<rparr>"
  let ?rm = "\<lparr>url = ''https://graph.facebook.com/v22.0/'' @ pid @ ''/messages'',
               payload = JObj [(''messaging_product'', JStr ''whatsapp''),
                               (''to'', JStr (replace_first ''whatsapp:'' [] t)),
                               (''type'', JStr ''text''),
                               (''text'', JObj [(''body'', message)])],
               bearer = tok\<rparr>"
  have a: "sendTextMessage_app e net (JStr t) message = ([?ra], net ?ra)"
    using assms
    by (simp add: sendTextMessage_app_def getWhatsAppConfig_def falsy_env_def Let_def
        WHATSAPP_API_URL_app_def cleanPhoneNumber_app_def)
  have m: "sendTextMessage_module e net (JStr t) message = ([?rm], net ?rm)"
    using assms
    by (simp add: sendTextMessage_module_def getWhatsAppConfig_def falsy_env_def Let_def
        WHATSAPP_API_URL_module_def cleanPhoneNumber_module_def sum_case_id)
  have u: "url ?ra \<noteq> url ?rm" by simp
  have d: "opt_prop (payload ?ra) ''to'' \<noteq> opt_prop (payload ?rm) ''to''"
    if "CHR ''+'' \<in> set t"
  proof -
    have "CHR ''+'' \<in> set (replace_first ''whatsapp:'' [] t)"
      by (rule replace_first_keeps[OF that]) simp
    then have "Suc (length (replace_first ''+'' [] (replace_first ''whatsapp:'' [] t)))
                 = length (replace_first ''whatsapp:'' [] t)"
      by (rule replace_first_single)
    then have "replace_first ''+'' [] (replace_first ''whatsapp:'' [] t)
                 \<noteq> replace_first ''whatsapp:'' [] t"
      by auto
    then show ?thesis by (simp add: opt_prop_def)
  qed
  have f: "sendTextMessage_app \<noteq> sendTextMessage_module"
  proof
    assume "sendTextMessage_app = sendTextMessage_module"
    then have "sendTextMessage_app e net (JStr t) message
                 = sendTextMessage_module e net (JStr t) message"
      by simp
    then have "?ra = ?rm" unfolding a m by simp
    then have "url ?ra = url ?rm" by (rule arg_cong)
    with u show False by contradiction
  qed
  from a m u d f show ?thesis unfolding Let_def by blast
qed

theorem send_copies_differ_witness:
  "CHR ''+'' \<in> set ''whatsapp:+972501234567'' \<and>
   sendTextMessage_app sample_env sample_net (JStr ''whatsapp:+972501234567'') (JStr ''hello'') =
     ([\<lparr>url = ''https://graph.facebook.com/v18.0/106540352242922/messages'',
        payload = JObj [(''messaging_product'', JStr ''whatsapp''),
                        (''to'', JStr ''972501234567''),
                        (''text'', JObj [(''body'', JStr ''hello'')])],
        bearer = ''EAAG''\<rparr>],
      Inr (JObj [(''messages'', JArr [JObj [(''id'', JStr ''wamid.OUT'')]])])) \<and>
   sendTextMessage_module sample_env sample_net (JStr ''whatsapp:+972501234567'') (JStr ''hello'') =
     ([\<lparr>url = ''https://graph.facebook.com/v22.0/106540352242922/messages'',
        payload = JObj [(''messaging_product'', JStr ''whatsapp''),
                        (''to'', JStr ''+972501234567''),
                        (''type'', JStr ''text''),
                        (''text'', JObj [(''body'', JStr ''hello'')])],
        bearer = ''EAAG''\<rparr>],
      Inr (JObj [(''messages'', JArr [JObj [(''id'', JStr ''wamid.OUT'')]])]))"
proof -
  have p: "sample_env ''WHATSAPP_PHONE_NUMBER_ID'' = Some ''106540352242922''"
    and q: "sample_env ''WHATSAPP_ACCESS_TOKEN'' = Some ''EAAG''"
    by (simp_all add: sample_env_def)
  have c1: "replace_first ''whatsapp:'' [] ''whatsapp:+972501234567'' = ''+972501234567''"
    by code_simp
  have c2: "replace_first ''+'' [] ''+972501234567'' = ''972501234567''"
    by code_simp
  have n: "sample_net r = Inr (JObj [(''messages'', JArr [JObj [(''id'', JStr ''wamid.OUT'')]])])"
    if "opt_prop (payload r) ''to'' \<noteq> JStr ''15550002222''" for r
    using that by (simp add: sample_net_def)
  from send_copies_differ[OF p _ q, where net = sample_net and t = "''whatsapp:+972501234567''"
      and message = "JStr ''hello''"]
  show ?thesis
    unfolding Let_def c1 c2 by (simp add: n opt_prop_def)
qed

section \<open>The webhook payload: missing links and delivery reports\<close>

lemma opt_prop_nullish: "nullish v \<Longrightarrow> opt_prop v k = JUndefined"
  by (cases v) (simp_all add: opt_prop_def)

lemma get_prop_Inr: "\<not> nullish v \<Longrightarrow> get_prop v k = Inr (opt_prop v k)"
  by (cases v) (simp_all add: opt_prop_def)

lemma get_prop_Inl: "nullish v \<Longrightarrow> get_prop v k = Inl TypeError"
  by (cases v) simp_all

lemma truthy_not_nullish: "truthy v \<Longrightarrow> \<not> nullish v"
  by (cases v) simp_all

lemma webhook_value_truthy:
  assumes "webhook_value reqbody = Inr v" "\<not> nullish v"
  shows "truthy reqbody"
  using assms
  by (cases reqbody) (auto simp: webhook_value_def opt_index0_def opt_prop_def split: if_splits)

text \<open>The parser returns \<^verbatim>\<open>null\<close> whenever the descent throws or ends in a falsy value.\<close>

lemma parse_unrecognized:
  assumes "\<And>v. webhook_value reqbody = Inr v \<Longrightarrow> \<not> truthy v"
  shows "parseWebhookPayload reqbody = None"
  using assms by (auto simp: parseWebhookPayload_def parse_try_def split: sum.splits)

text \<open>The POST handler has no \<^verbatim>\<open>return\<close> for a missing \<^verbatim>\<open>value\<close> without statuses: it goes
  on to read \<^verbatim>\<open>value.messages[0]\<close>, which throws, and the \<^verbatim>\<open>catch\<close> answers 500.\<close>

lemma post_missing_link:
  assumes "truthy reqbody" "webhook_value reqbody = Inr v" "nullish v"
  shows "webhook_post db now reqbody =
           (received_log now reqbody,
            \<lparr>status = 500, body = Send (JStr ''Error processing webhook'')\<rparr>)"
  using assms
  by (simp add: webhook_post_def webhook_post_try_def handle_message_def get_prop_Inl
      received_log_def opt_prop_nullish)

text \<open>
  C1. On the payload \<^verbatim>\<open>{}\<close>, which has no \<^verbatim>\<open>entry\<close>, the parser of the shared module returns
  \<^verbatim>\<open>null\<close> without throwing, but the POST handler reaches its \<^verbatim>\<open>catch\<close> and answers 500
  with \<^verbatim>\<open>Error processing webhook\<close>.
\<close>

theorem post_without_entry_answers_500:
  "parseWebhookPayload (JObj []) = None \<and>
   webhook_post db now (JObj []) =
     (received_log now (JObj []),
      \<lparr>status = 500, body = Send (JStr ''Error processing webhook'')\<rparr>)"
proof -
  have v: "webhook_value (JObj []) = Inr JUndefined"
    by (simp add: webhook_value_def opt_index0_def opt_prop_def)
  have "parseWebhookPayload (JObj []) = None"
    by (rule parse_unrecognized) (simp add: v)
  moreover have "webhook_post db now (JObj []) =
     (received_log now (JObj []),
      \<lparr>status = 500, body = Send (JStr ''Error processing webhook'')\<rparr>)"
    by (rule post_missing_link[OF _ v]) simp_all
  ultimately show ?thesis by simp
qed

lemma log_statuses_all:
  "\<forall>s\<in>set ss. \<not> nullish s \<Longrightarrow>
     log_statuses ss = (map (\<lambda>s. LogStatus (status_of s)) ss, None)"
  by (induction ss) (auto simp: status_entry_def status_of_def get_prop_Inr)

text \<open>
  C2, as the code has it. When \<^verbatim>\<open>value.messages\<close> is absent (or falsy) and
  \<^verbatim>\<open>value.statuses\<close> is a non-empty array without null entries, the POST handler logs one
  status record per entry, in order, with the entry's \<^verbatim>\<open>id\<close>, \<^verbatim>\<open>status\<close>, \<^verbatim>\<open>timestamp\<close>,
  \<^verbatim>\<open>conversation\<close>, \<^verbatim>\<open>pricing\<close> and \<^verbatim>\<open>errors\<close>, touches no datastore and answers 200; the
  parser of the shared module returns \<^verbatim>\<open>null\<close>, so no inbound message is produced.
\<close>

theorem statuses_logged_one_per_entry:
  assumes "webhook_value reqbody = Inr v"
    and "\<not> truthy (opt_prop v ''messages'')"
    and "opt_prop v ''statuses'' = JArr ss" "ss \<noteq> []"
    and "\<forall>s\<in>set ss. \<not> nullish s"
  shows "webhook_post db now reqbody =
           (received_log now reqbody @ map (\<lambda>s. LogStatus (status_of s)) ss, ok_response) \<and>
         parseWebhookPayload reqbody = None"
proof -
  have nn: "\<not> nullish v" using assms(3) by (cases v) (simp_all add: opt_prop_def)
  have t: "truthy reqbody" by (rule webhook_value_truthy[OF assms(1) nn])
  have len: "truthy (opt_prop (opt_prop v ''statuses'') ''length'')"
    using assms(3,4) by (simp add: opt_prop_def)
  have "webhook_post_try db now reqbody =
          (map (\<lambda>s. LogStatus (status_of s)) ss, Inr ok_response)"
    using t assms(1,2,3) len log_statuses_all[OF assms(5)]
    by (simp add: webhook_post_try_def)
  then have "webhook_post db now reqbody =
           (received_log now reqbody @ map (\<lambda>s. LogStatus (status_of s)) ss, ok_response)"
    by (simp add: webhook_post_def received_log_def)
  moreover have "parseWebhookPayload reqbody = None"
    using assms(1,2) by (simp add: parseWebhookPayload_def parse_try_def)
  ultimately show ?thesis by simp
qed

theorem statuses_logged_one_per_entry_witness:
  "webhook_post (sample_db []) sample_now (envelope (JObj [(''statuses'', JArr two_statuses)])) =
     (received_log sample_now (envelope (JObj [(''statuses'', JArr two_statuses)])) @
      [LogStatus \<lparr>su_id = JStr ''wamid.A'', su_status = JStr ''sent'',
                  su_timestamp = JStr ''1714557600'', su_conversation = JUndefined,
                  su_pricing = JUndefined, su_errors = JUndefined\<rparr>,
       LogStatus \<lparr>su_id = JStr ''wamid.A'', su_status = JStr ''delivered'',
                  su_timestamp = JStr ''1714557605'', su_conversation = JUndefined,
                  su_pricing = JUndefined, su_errors = JUndefined\<rparr>],
      ok_response) \<and>
   parseWebhookPayload (envelope (JObj [(''statuses'', JArr two_statuses)])) = None"
proof -
  let ?v = "JObj [(''statuses'', JArr two_statuses)]"
  have a: "webhook_value (envelope ?v) = Inr ?v"
    by (simp add: webhook_value_def envelope_def opt_index0_def opt_prop_def)
  have b: "\<not> truthy (opt_prop ?v ''messages'')" by (simp add: opt_prop_def)
  have c: "opt_prop ?v ''statuses'' = JArr two_statuses" by (simp add: opt_prop_def)
  have d: "two_statuses \<noteq> []" by (simp add: two_statuses_def)
  have e: "\<forall>s\<in>set two_statuses. \<not> nullish s" by (simp add: two_statuses_def)
  have f: "map (\<lambda>s. LogStatus (status_of s)) two_statuses =
      [LogStatus \<lparr>su_id = JStr ''wamid.A'', su_status = JStr ''sent'',
                  su_timestamp = JStr ''1714557600'', su_conversation = JUndefined,
                  su_pricing = JUndefined, su_errors = JUndefined\<rparr>,
       LogStatus \<lparr>su_id = JStr ''wamid.A'', su_status = JStr ''delivered'',
                  su_timestamp = JStr ''1714557605'', su_conversation = JUndefined,
                  su_pricing = JUndefined, su_errors = JUndefined\<rparr>]"
    by (simp add: two_statuses_def status_of_def opt_prop_def)
  from statuses_logged_one_per_entry[OF a b c d e, of "sample_db []" sample_now]
  show ?thesis unfolding f .
qed

text \<open>With an empty \<^verbatim>\<open>messages\<close> array next to the two statuses, the array is truthy, the
  handler takes the message branch, \<^verbatim>\<open>messages[0]\<close> is \<^verbatim>\<open>undefined\<close>, and the handler
  answers 500 without logging a status.\<close>

theorem statuses_with_empty_messages_counterexample:
  "webhook_post (sample_db []) sample_now
     (envelope (JObj [(''messages'', JArr []), (''statuses'', JArr two_statuses)])) =
     (received_log sample_now
        (envelope (JObj [(''messages'', JArr []), (''statuses'', JArr two_statuses)])),
      \<lparr>status = 500, body = Send (JStr ''Error processing webhook'')\<rparr>)"
  by (simp add: webhook_post_def webhook_post_try_def webhook_value_def envelope_def
      opt_index0_def opt_prop_def handle_message_def text_body_def received_log_def)

section \<open>The message branch of the POST handler\<close>

lemma record_reply_text:
  "record_reply now invitee (JStr tx) mid = (effs, r) \<Longrightarrow>
     r = None \<and>
     (list_ex is_update effs \<longleftrightarrow> classify tx \<noteq> Pending) \<and>
     (\<forall>tbl row. DbInsert tbl row \<in> set effs \<longrightarrow> opt_prop row ''message_body'' = JStr tx)"
  by (auto simp: record_reply_def Let_def is_update_def opt_prop_def)

lemma record_reply_other:
  "\<forall>tx. messageText \<noteq> JStr tx \<Longrightarrow>
     record_reply now invitee messageText mid = ([], Some TypeError)"
  by (cases messageText) (simp_all add: record_reply_def)

lemma handle_message_text:
  assumes "get_prop v ''messages'' = Inr ms" "index0 ms = Inr message"
    "text_body message = Inr (JStr tx)"
  shows "\<exists>effs. handle_message db now v = (effs, Inr ok_response) \<and>
     (list_ex is_update effs \<longrightarrow> classify tx \<noteq> Pending) \<and>
     (\<forall>tbl row. DbInsert tbl row \<in> set effs \<longrightarrow> opt_prop row ''message_body'' = JStr tx)"
proof -
  let ?from = "opt_prop message ''from''"
  let ?reply = "select_invitees db ?from"
  let ?lookup = "[DbSelect ''invitees'' ''phone_number'' ?from]"
  show ?thesis
  proof (cases "\<exists>invitee rest. lr_error ?reply = False \<and> lr_data ?reply = Some (invitee # rest)")
    case True
    then obtain invitee rest
      where f: "lr_error ?reply = False" "lr_data ?reply = Some (invitee # rest)"
      by blast
    obtain effs r
      where rr: "record_reply now invitee (JStr tx) (opt_prop message ''id'') = (effs, r)"
      by (cases "record_reply now invitee (JStr tx) (opt_prop message ''id'')")
    note p = record_reply_text[OF rr]
    have "handle_message db now v = (?lookup @ effs, Inr ok_response)"
      using assms f rr p by (simp add: handle_message_def Let_def)
    moreover have "list_ex is_update (?lookup @ effs) = list_ex is_update effs"
      by (simp add: is_update_def)
    ultimately show ?thesis using p by auto
  next
    case False
    have "handle_message db now v = (?lookup, Inr ok_response)"
      using assms False
      by (auto simp: handle_message_def Let_def split: bool.splits option.splits list.splits)
    then show ?thesis by (simp add: is_update_def)
  qed
qed

lemma handle_message_no_text:
  assumes "\<And>ms message tx. get_prop v ''messages'' = Inr ms \<Longrightarrow> index0 ms = Inr message \<Longrightarrow>
     text_body message \<noteq> Inr (JStr tx)"
  shows "\<not> list_ex is_update (fst (handle_message db now v))"
proof (cases "get_prop v ''messages''")
  case (Inl a)
  then show ?thesis by (simp add: handle_message_def)
next
  case ms: (Inr ms)
  show ?thesis
  proof (cases "index0 ms")
    case (Inl a)
    then show ?thesis using ms by (simp add: handle_message_def)
  next
    case m: (Inr message)
    show ?thesis
    proof (cases "text_body message")
      case (Inl a)
      then show ?thesis using ms m by (simp add: handle_message_def)
    next
      case (Inr mt)
      have "\<forall>tx. mt \<noteq> JStr tx" using assms[OF ms m] Inr by auto
      then have "record_reply now invitee mt mid = ([], Some TypeError)" for invitee mid
        by (rule record_reply_other)
      then show ?thesis using ms m Inr
        by (auto simp: handle_message_def Let_def is_update_def
            split: bool.splits option.splits list.splits)
    qed
  qed
qed

lemma log_statuses_fst: "\<not> list_ex is_update (fst (log_statuses ss))"
  by (induction ss) (auto simp: is_update_def split: sum.splits prod.splits)

lemma log_statuses_no_update: "log_statuses ss = (l, r) \<Longrightarrow> \<not> list_ex is_update l"
  using log_statuses_fst[of ss] by simp

lemma inbound_text_Some:
  "inbound_text reqbody = Some tx \<longleftrightarrow>
     (\<exists>v ms message. webhook_value reqbody = Inr v \<and> get_prop v ''messages'' = Inr ms \<and>
        index0 ms = Inr message \<and> text_body message = Inr (JStr tx))"
  by (auto simp: inbound_text_def split: sum.splits json.splits)

lemma post_try_updates:
  assumes "list_ex is_update (fst (webhook_post_try db now reqbody))"
  shows "\<exists>tx. inbound_text reqbody = Some tx \<and> classify tx \<noteq> Pending"
proof (cases "webhook_value reqbody")
  case (Inl a)
  then show ?thesis using assms by (simp add: webhook_post_try_def split: if_splits)
next
  case (Inr v)
  have hm: "list_ex is_update (fst (handle_message db now v))"
    using assms Inr log_statuses_no_update
    by (auto simp: webhook_post_try_def split: if_splits sum.splits prod.splits option.splits)
  show ?thesis
  proof (cases "inbound_text reqbody")
    case None
    have "\<not> list_ex is_update (fst (handle_message db now v))"
    proof (rule handle_message_no_text)
      fix ms message tx
      assume "get_prop v ''messages'' = Inr ms" "index0 ms = Inr message"
      then show "text_body message \<noteq> Inr (JStr tx)"
        using None Inr inbound_text_Some[of reqbody tx] by auto
    qed
    with hm show ?thesis by simp
  next
    case (Some tx)
    then obtain ms message
      where g: "get_prop v ''messages'' = Inr ms" "index0 ms = Inr message"
        "text_body message = Inr (JStr tx)"
      using Inr inbound_text_Some[of reqbody tx] by auto
    from handle_message_text[OF g, of db now] hm have "classify tx \<noteq> Pending" by auto
    with Some show ?thesis by simp
  qed
qed

lemma post_effects:
  "fst (webhook_post db now reqbody) =
     received_log now reqbody @ fst (webhook_post_try db now reqbody)"
  by (simp add: webhook_post_def received_log_def Let_def split: prod.splits sum.splits)

lemma post_updates:
  "list_ex is_update (fst (webhook_post db now reqbody)) =
     list_ex is_update (fst (webhook_post_try db now reqbody))"
  by (simp add: post_effects received_log_def is_update_def)

text \<open>
  C10. When the text of the inbound message classifies as pending, the run of the POST
  handler holds no update of a datastore row; and a run that holds an update is the run for
  a message whose text classifies as confirmed, declined or maybe.
\<close>

theorem pending_reply_no_update:
  "(\<forall>tx. inbound_text reqbody = Some tx \<and> classify tx = Pending \<longrightarrow>
      \<not> list_ex is_update (fst (webhook_post db now reqbody))) \<and>
   (list_ex is_update (fst (webhook_post db now reqbody)) \<longrightarrow>
      (\<exists>tx. inbound_text reqbody = Some tx \<and> classify tx \<noteq> Pending))"
  using post_try_updates[of db now reqbody] unfolding post_updates by auto

theorem pending_reply_no_update_witness:
  "inbound_text (envelope (JObj [(''messages'', JArr [text_message ''See you soon''])]))
     = Some ''See you soon'' \<and>
   classify ''See you soon'' = Pending \<and>
   \<not> list_ex is_update
       (fst (webhook_post (sample_db [sample_invitee]) sample_now
               (envelope (JObj [(''messages'', JArr [text_message ''See you soon''])])))) \<and>
   list_ex is_update
     (fst (webhook_post (sample_db [sample_invitee]) sample_now
             (envelope (JObj [(''messages'', JArr [text_message ''Yes I will be there''])])))) \<and>
   classify ''Yes I will be there'' = Confirmed"
proof -
  let ?p = "envelope (JObj [(''messages'', JArr [text_message ''See you soon''])])"
  let ?y = "envelope (JObj [(''messages'', JArr [text_message ''Yes I will be there''])])"
  have a: "inbound_text ?p = Some ''See you soon''" by code_simp
  have b: "classify ''See you soon'' = Pending" by code_simp
  have c: "list_ex is_update (fst (webhook_post (sample_db [sample_invitee]) sample_now ?y))"
    by code_simp
  have d: "classify ''Yes I will be there'' = Confirmed" by code_simp
  from pending_reply_no_update[of ?p "sample_db [sample_invitee]" sample_now] a b
  have "\<not> list_ex is_update (fst (webhook_post (sample_db [sample_invitee]) sample_now ?p))"
    by blast
  with a b c d show ?thesis by blast
qed

text \<open>
  C5. For a payload whose first message is an object, the text of the inbound message is
  \<^verbatim>\<open>text.body\<close> as it stands when that is a string, and the empty string when it is absent:
  the parser of the shared module returns a message with that text, and the POST handler
  answers 200 and stores that text in every row it inserts.
\<close>

theorem message_text_verbatim:
  assumes "webhook_value reqbody = Inr v"
    and "opt_prop v ''messages'' = JArr (message # rest)"
    and "\<not> nullish message"
    and "opt_prop (opt_prop message ''text'') ''body'' = JStr tx \<or>
         opt_prop (opt_prop message ''text'') ''body'' = JUndefined \<and> tx = []"
  shows "(\<exists>m. parseWebhookPayload reqbody = Some m \<and> im_text m = JStr tx) \<and>
         snd (webhook_post db now reqbody) = ok_response \<and>
         (\<forall>tbl row. DbInsert tbl row \<in> set (fst (webhook_post db now reqbody)) \<longrightarrow>
            opt_prop row ''message_body'' = JStr tx)"
proof -
  have nn: "\<not> nullish v" using assms(2) by (cases v) (simp_all add: opt_prop_def)
  have tv: "truthy v" using assms(2) by (cases v) (simp_all add: opt_prop_def)
  have t: "truthy reqbody" by (rule webhook_value_truthy[OF assms(1) nn])
  have ms: "get_prop v ''messages'' = Inr (JArr (message # rest))"
    using nn assms(2) by (simp add: get_prop_Inr)
  have i0: "index0 (JArr (message # rest)) = Inr message" by simp
  have tb: "text_body message = Inr (JStr tx)"
    using assms(3,4) by (auto simp: text_body_def get_prop_Inr js_or_def)
  have "\<exists>m. parseWebhookPayload reqbody = Some m \<and> im_text m = JStr tx"
    using assms(1,2,3) tv tb
    by (simp add: parseWebhookPayload_def parse_try_def get_prop_Inr Let_def)
  moreover
  from handle_message_text[OF ms i0 tb, of db now]
  obtain effs where h: "handle_message db now v = (effs, Inr ok_response)"
    and ins: "\<forall>tbl row. DbInsert tbl row \<in> set effs \<longrightarrow> opt_prop row ''message_body'' = JStr tx"
    by blast
  have "webhook_post_try db now reqbody = (effs, Inr ok_response)"
    using t assms(1,2) tv h by (simp add: webhook_post_try_def)
  then have "webhook_post db now reqbody = (received_log now reqbody @ effs, ok_response)"
    by (simp add: webhook_post_def received_log_def)
  then have "snd (webhook_post db now reqbody) = ok_response \<and>
         (\<forall>tbl row. DbInsert tbl row \<in> set (fst (webhook_post db now reqbody)) \<longrightarrow>
            opt_prop row ''message_body'' = JStr tx)"
    using ins by (auto simp: received_log_def)
  ultimately show ?thesis by blast
qed

theorem message_text_verbatim_witness:
  "(\<exists>m. parseWebhookPayload
          (envelope (JObj [(''messages'', JArr [text_message ''Yes I will be there''])])) = Some m \<and>
        im_text m = JStr ''Yes I will be there'') \<and>
   (\<exists>m. parseWebhookPayload (envelope (JObj [(''messages'', JArr [image_message])])) = Some m \<and>
        im_text m = JStr []) \<and>
   snd (webhook_post (sample_db [sample_invitee]) sample_now
          (envelope (JObj [(''messages'', JArr [image_message])]))) = ok_response"
proof -
  let ?vt = "JObj [(''messages'', JArr [text_message ''Yes I will be there''])]"
  let ?vi = "JObj [(''messages'', JArr [image_message])]"
  have a: "webhook_value (envelope v) = Inr v" for v
    by (simp add: webhook_value_def envelope_def opt_index0_def opt_prop_def)
  have b1: "opt_prop ?vt ''messages'' = JArr (text_message ''Yes I will be there'' # [])"
    by (simp add: opt_prop_def)
  have b2: "opt_prop ?vi ''messages'' = JArr (image_message # [])"
    by (simp add: opt_prop_def)
  have c1: "\<not> nullish (text_message ''Yes I will be there'')" by (simp add: text_message_def)
  have c2: "\<not> nullish image_message" by (simp add: image_message_def)
  have d1: "opt_prop (opt_prop (text_message ''Yes I will be there'') ''text'') ''body''
              = JStr ''Yes I will be there'' \<or>
            opt_prop (opt_prop (text_message ''Yes I will be there'') ''text'') ''body''
              = JUndefined \<and> ''Yes I will be there'' = []"
    by (simp add: text_message_def opt_prop_def)
  have d2: "opt_prop (opt_prop image_message ''text'') ''body'' = JStr [] \<or>
            opt_prop (opt_prop image_message ''text'') ''body'' = JUndefined \<and> [] = ([] :: string)"
    by (simp add: image_message_def opt_prop_def)
  from message_text_verbatim[OF a b1 c1 d1, of "sample_db [sample_invitee]" sample_now]
    message_text_verbatim[OF a b2 c2 d2, of "sample_db [sample_invitee]" sample_now]
  show ?thesis by blast
qed

section \<open>The bulk send\<close>

lemma bulk_results_Cons:
  "bulk_results e net db now (m # ms) =
     (case snd (bulk_try e net db now m) of
        Inr entry \<Rightarrow> entry # bulk_results e net db now ms
      | Inl err \<Rightarrow> bulk_results e net db now ms)"
  by (simp add: bulk_results_def map_filter_simps split: sum.splits)

lemma bulk_errors_Cons:
  "bulk_errors e net db now (m # ms) =
     (case snd (bulk_try e net db now m) of
        Inl err \<Rightarrow> (opt_prop m ''to'', err) # bulk_errors e net db now ms
      | Inr entry \<Rightarrow> bulk_errors e net db now ms)"
  by (simp add: bulk_errors_def map_filter_simps split: sum.splits)

lemma bulk_loop_all:
  "\<forall>m\<in>set ms. \<not> nullish m \<Longrightarrow>
     bulk_loop e net db now ms rs es =
       (bulk_effects e net db now ms,
        Inr (rs @ bulk_results e net db now ms, es @ bulk_errors e net db now ms))"
proof (induction ms arbitrary: rs es)
  case Nil
  then show ?case by (simp add: bulk_effects_def bulk_results_def bulk_errors_def map_filter_simps)
next
  case (Cons m ms)
  then have nn: "\<not> nullish m" and rest: "\<forall>m\<in>set ms. \<not> nullish m" by simp_all
  obtain effs r where bt: "bulk_try e net db now m = (effs, r)"
    by (cases "bulk_try e net db now m")
  have eff: "bulk_effects e net db now (m # ms) = effs @ [Sleep 1000] @ bulk_effects e net db now ms"
    using bt by (simp add: bulk_effects_def)
  show ?case
  proof (cases r)
    case (Inl err)
    then show ?thesis
      using bt eff Cons.IH[OF rest] nn
      by (simp add: bulk_results_Cons bulk_errors_Cons get_prop_Inr)
  next
    case (Inr entry)
    then show ?thesis
      using bt eff Cons.IH[OF rest]
      by (simp add: bulk_results_Cons bulk_errors_Cons)
  qed
qed

lemma bulk_lengths:
  "length (bulk_results e net db now ms) + length (bulk_errors e net db now ms) = length ms"
proof (induction ms)
  case Nil
  then show ?case by (simp add: bulk_results_def bulk_errors_def map_filter_simps)
next
  case (Cons m ms)
  then show ?case
    by (cases "snd (bulk_try e net db now m)") (simp_all add: bulk_results_Cons bulk_errors_Cons)
qed


lemma bulk_try_send_fails:
  assumes "\<not> nullish m"
    and "snd (sendTextMessage_app e net (opt_prop m ''to'') (opt_prop m ''body'')) = Inl err"
  shows "snd (bulk_try e net db now m) = Inl err"
proof -
  obtain reqs where "sendTextMessage_app e net (opt_prop m ''to'') (opt_prop m ''body'') = (reqs, Inl err)"
    using assms(2) by (cases "sendTextMessage_app e net (opt_prop m ''to'') (opt_prop m ''body'')") simp
  then show ?thesis using assms(1) by (simp add: bulk_try_def get_prop_Inr)
qed

lemma bulk_try_send_ok:
  assumes "\<not> nullish m"
    and "snd (sendTextMessage_app e net (opt_prop m ''to'') (opt_prop m ''body'')) = Inr resp"
    and "\<not> nullish resp"
  shows "\<exists>entry. snd (bulk_try e net db now m) = Inr entry \<and>
           opt_prop entry ''to'' = opt_prop m ''to''"
proof -
  obtain reqs where "sendTextMessage_app e net (opt_prop m ''to'') (opt_prop m ''body'') = (reqs, Inr resp)"
    using assms(2) by (cases "sendTextMessage_app e net (opt_prop m ''to'') (opt_prop m ''body'')") simp
  then have "snd (bulk_try e net db now m) =
     Inr (JObj [(''to'', opt_prop m ''to''),
                (''whatsappMessageId'', opt_prop (opt_index0 (opt_prop resp ''messages'')) ''id''),
                (''messageHistoryId'',
                  opt_prop (opt_index0 (insert_history db
                     (JObj [(''invitee_id'', js_or (opt_prop m ''inviteeId'') JNull),
                                 (''template_id'', js_or (opt_prop m ''templateId'') JNull),
                                 (''message_body'', opt_prop m ''body''),
                                 (''sent_at'', JStr now),
                                 (''status'', JStr ''sent''),
                                 (''whatsapp_message_id'', js_or (opt_prop (opt_index0 (opt_prop resp ''messages'')) ''id'') JNull)]))) ''id'')])"
    using assms(1,3) by (simp add: bulk_try_def get_prop_Inr Let_def)
  then show ?thesis by (simp add: opt_prop_def)
qed

lemma bulk_try_posts:
  assumes "\<not> nullish m"
  shows "set (map Post (fst (sendTextMessage_app e net (opt_prop m ''to'') (opt_prop m ''body''))))
           \<subseteq> set (fst (bulk_try e net db now m))"
proof -
  obtain reqs r where s: "sendTextMessage_app e net (opt_prop m ''to'') (opt_prop m ''body'') = (reqs, r)"
    by (cases "sendTextMessage_app e net (opt_prop m ''to'') (opt_prop m ''body'')")
  show ?thesis
  proof (cases r)
    case (Inl err)
    then show ?thesis using s assms by (simp add: bulk_try_def get_prop_Inr)
  next
    case (Inr resp)
    then show ?thesis using s assms
      by (cases "get_prop resp ''messages''") (auto simp: bulk_try_def get_prop_Inr Let_def)
  qed
qed


lemma in_bulk_errors:
  "m \<in> set ms \<Longrightarrow> snd (bulk_try e net db now m) = Inl err \<Longrightarrow>
     (opt_prop m ''to'', err) \<in> set (bulk_errors e net db now ms)"
proof (induction ms)
  case Nil
  then show ?case by simp
next
  case (Cons a ms)
  then show ?case
    by (cases "snd (bulk_try e net db now a)") (auto simp: bulk_errors_Cons)
qed

lemma in_bulk_results:
  "m \<in> set ms \<Longrightarrow> snd (bulk_try e net db now m) = Inr entry \<Longrightarrow>
     entry \<in> set (bulk_results e net db now ms)"
proof (induction ms)
  case Nil
  then show ?case by simp
next
  case (Cons a ms)
  then show ?case
    by (cases "snd (bulk_try e net db now a)") (auto simp: bulk_results_Cons)
qed

lemma in_bulk_effects:
  "m \<in> set ms \<Longrightarrow> set (fst (bulk_try e net db now m)) \<subseteq> set (bulk_effects e net db now ms)"
  by (auto simp: bulk_effects_def)

text \<open>
  C7, as the code has it. For a request whose \<^verbatim>\<open>messages\<close> is an array of non-null elements,
  the bulk handler answers 200 with the report \<^verbatim>\<open>{success: true, results, errors}\<close>: every
  element is tried, in order, and adds exactly one entry, to \<^verbatim>\<open>results\<close> when its block
  returns and to \<^verbatim>\<open>errors\<close> when it throws. A recipient whose send fails is in \<^verbatim>\<open>errors\<close>
  with the error of the send, a recipient whose send returns a response that is not
  \<^verbatim>\<open>null\<close> is in \<^verbatim>\<open>results\<close>, and the request of every element is among the effects of the
  run whatever happened before it.
\<close>

theorem bulk_collects_failures:
  assumes "get_prop reqbody ''messages'' = Inr (JArr ms)"
    and "\<forall>m\<in>set ms. \<not> nullish m"
  shows "send_bulk e net db now reqbody =
           (bulk_effects e net db now ms,
            \<lparr>status = 200,
             body = BulkJson (bulk_results e net db now ms) (bulk_errors e net db now ms)\<rparr>) \<and>
         length (bulk_results e net db now ms) + length (bulk_errors e net db now ms) = length ms \<and>
         (\<forall>m\<in>set ms. \<forall>err.
            snd (sendTextMessage_app e net (opt_prop m ''to'') (opt_prop m ''body'')) = Inl err \<longrightarrow>
            (opt_prop m ''to'', err) \<in> set (bulk_errors e net db now ms)) \<and>
         (\<forall>m\<in>set ms. \<forall>resp.
            snd (sendTextMessage_app e net (opt_prop m ''to'') (opt_prop m ''body'')) = Inr resp \<and>
            \<not> nullish resp \<longrightarrow>
            (\<exists>entry\<in>set (bulk_results e net db now ms). opt_prop entry ''to'' = opt_prop m ''to'')) \<and>
         (\<forall>m\<in>set ms.
            set (map Post (fst (sendTextMessage_app e net (opt_prop m ''to'') (opt_prop m ''body''))))
              \<subseteq> set (fst (send_bulk e net db now reqbody)))"
proof -
  have run: "send_bulk e net db now reqbody =
           (bulk_effects e net db now ms,
            \<lparr>status = 200,
             body = BulkJson (bulk_results e net db now ms) (bulk_errors e net db now ms)\<rparr>)"
    using assms(1) bulk_loop_all[OF assms(2), of e net db now "[]" "[]"]
    by (simp add: send_bulk_def)
  have errs: "(opt_prop m ''to'', err) \<in> set (bulk_errors e net db now ms)"
    if "m \<in> set ms"
      "snd (sendTextMessage_app e net (opt_prop m ''to'') (opt_prop m ''body'')) = Inl err"
    for m err
  proof -
    have "\<not> nullish m" using that(1) assms(2) by blast
    from bulk_try_send_fails[OF this that(2)] in_bulk_errors[OF that(1)] show ?thesis by blast
  qed
  have oks: "\<exists>entry\<in>set (bulk_results e net db now ms). opt_prop entry ''to'' = opt_prop m ''to''"
    if "m \<in> set ms"
      "snd (sendTextMessage_app e net (opt_prop m ''to'') (opt_prop m ''body'')) = Inr resp"
      "\<not> nullish resp"
    for m resp
  proof -
    have "\<not> nullish m" using that(1) assms(2) by blast
    from bulk_try_send_ok[OF this that(2,3)] in_bulk_results[OF that(1)] show ?thesis by blast
  qed
  have posts: "set (map Post (fst (sendTextMessage_app e net (opt_prop m ''to'') (opt_prop m ''body''))))
              \<subseteq> set (fst (send_bulk e net db now reqbody))"
    if "m \<in> set ms" for m
  proof -
    have "\<not> nullish m" using that assms(2) by blast
    then have a: "set (map Post (fst (sendTextMessage_app e net (opt_prop m ''to'') (opt_prop m ''body''))))
              \<subseteq> set (fst (bulk_try e net db now m))"
      by (rule bulk_try_posts)
    have b: "set (fst (bulk_try e net db now m)) \<subseteq> set (bulk_effects e net db now ms)"
      by (rule in_bulk_effects[OF that])
    have c: "fst (send_bulk e net db now reqbody) = bulk_effects e net db now ms"
      by (simp add: run)
    show ?thesis unfolding c using a b by (rule subset_trans)
  qed
  show ?thesis
  proof (intro conjI)
    show "send_bulk e net db now reqbody =
           (bulk_effects e net db now ms,
            \<lparr>status = 200,
             body = BulkJson (bulk_results e net db now ms) (bulk_errors e net db now ms)\<rparr>)"
      by (rule run)
    show "length (bulk_results e net db now ms) + length (bulk_errors e net db now ms) = length ms"
      by (rule bulk_lengths)
    show "\<forall>m\<in>set ms. \<forall>err.
            snd (sendTextMessage_app e net (opt_prop m ''to'') (opt_prop m ''body'')) = Inl err \<longrightarrow>
            (opt_prop m ''to'', err) \<in> set (bulk_errors e net db now ms)"
      using errs by blast
    show "\<forall>m\<in>set ms. \<forall>resp.
            snd (sendTextMessage_app e net (opt_prop m ''to'') (opt_prop m ''body'')) = Inr resp \<and>
            \<not> nullish resp \<longrightarrow>
            (\<exists>entry\<in>set (bulk_results e net db now ms). opt_prop entry ''to'' = opt_prop m ''to'')"
      using oks by blast
    show "\<forall>m\<in>set ms.
            set (map Post (fst (sendTextMessage_app e net (opt_prop m ''to'') (opt_prop m ''body''))))
              \<subseteq> set (fst (send_bulk e net db now reqbody))"
      using posts by blast
  qed
qed


theorem bulk_collects_failures_witness:
  "snd (send_bulk sample_env sample_net (sample_db []) sample_now
          (JObj [(''messages'', JArr sample_messages)])) =
     \<lparr>status = 200,
      body = BulkJson
        [JObj [(''to'', JStr ''whatsapp:+15550001111''),
               (''whatsappMessageId'', JStr ''wamid.OUT''),
               (''messageHistoryId'', JNum 41)],
         JObj [(''to'', JStr ''15550003333''),
               (''whatsappMessageId'', JStr ''wamid.OUT''),
               (''messageHistoryId'', JNum 41)]]
        [(JStr ''15550002222'', AxiosError ''Request failed with status code 400'')]\<rparr> \<and>
   Post \<lparr>url = ''https://graph.facebook.com/v18.0/106540352242922/messages'',
         payload = JObj [(''messaging_product'', JStr ''whatsapp''),
                         (''to'', JStr ''15550003333''),
                         (''text'', JObj [(''body'', JStr ''You are invited'')])],
         bearer = ''EAAG''\<rparr>
     \<in> set (fst (send_bulk sample_env sample_net (sample_db []) sample_now
                    (JObj [(''messages'', JArr sample_messages)])))"
proof -
  let ?req = "JObj [(''messages'', JArr sample_messages)]"
  let ?m3 = "JObj [(''to'', JStr ''15550003333''), (''body'', JStr ''You are invited''),
            (''inviteeId'', JNum 9)]"
  have a: "get_prop ?req ''messages'' = Inr (JArr sample_messages)" by simp
  have b: "\<forall>m\<in>set sample_messages. \<not> nullish m" by (simp add: sample_messages_def)
  note t = bulk_collects_failures[OF a b, of sample_env sample_net "sample_db []" sample_now]
  have r: "bulk_results sample_env sample_net (sample_db []) sample_now sample_messages =
        [JObj [(''to'', JStr ''whatsapp:+15550001111''),
               (''whatsappMessageId'', JStr ''wamid.OUT''),
               (''messageHistoryId'', JNum 41)],
         JObj [(''to'', JStr ''15550003333''),
               (''whatsappMessageId'', JStr ''wamid.OUT''),
               (''messageHistoryId'', JNum 41)]]"
    by code_simp
  have e: "bulk_errors sample_env sample_net (sample_db []) sample_now sample_messages =
        [(JStr ''15550002222'', AxiosError ''Request failed with status code 400'')]"
    by code_simp
  have m3: "?m3 \<in> set sample_messages" by (simp add: sample_messages_def)
  have p: "fst (sendTextMessage_app sample_env sample_net (opt_prop ?m3 ''to'') (opt_prop ?m3 ''body''))
     = [\<lparr>url = ''https://graph.facebook.com/v18.0/106540352242922/messages'',
         payload = JObj [(''messaging_product'', JStr ''whatsapp''),
                         (''to'', JStr ''15550003333''),
                         (''text'', JObj [(''body'', JStr ''You are invited'')])],
         bearer = ''EAAG''\<rparr>]"
    by code_simp
  from t have "snd (send_bulk sample_env sample_net (sample_db []) sample_now ?req) =
     \<lparr>status = 200,
      body = BulkJson (bulk_results sample_env sample_net (sample_db []) sample_now sample_messages)
               (bulk_errors sample_env sample_net (sample_db []) sample_now sample_messages)\<rparr>"
    by simp
  moreover from t m3
  have "set (map Post (fst (sendTextMessage_app sample_env sample_net (opt_prop ?m3 ''to'')
                              (opt_prop ?m3 ''body''))))
          \<subseteq> set (fst (send_bulk sample_env sample_net (sample_db []) sample_now ?req))"
    by blast
  ultimately show ?thesis unfolding r e p by simp
qed

text \<open>
  Two runs outside those conditions. With a \<^verbatim>\<open>null\<close> element after a recipient whose send
  fails, the element's \<^verbatim>\<open>catch\<close> reads \<^verbatim>\<open>msgData.to\<close> and throws in its turn: the handler
  answers 500 and the request of the recipient after the element is never sent. With a
  network that answers \<^verbatim>\<open>null\<close>, the recipients whose requests were accepted are reported
  in \<^verbatim>\<open>errors\<close>, since \<^verbatim>\<open>whatsappResponse.messages\<close> throws.
\<close>

theorem bulk_null_element_counterexample:
  "snd (send_bulk sample_env sample_net (sample_db []) sample_now
          (JObj [(''messages'', JArr sample_messages_with_null)])) =
     \<lparr>status = 500, body = FailureJson TypeError\<rparr> \<and>
   Post \<lparr>url = ''https://graph.facebook.com/v18.0/106540352242922/messages'',
         payload = JObj [(''messaging_product'', JStr ''whatsapp''),
                         (''to'', JStr ''15550003333''),
                         (''text'', JObj [(''body'', JStr ''You are invited'')])],
         bearer = ''EAAG''\<rparr>
     \<notin> set (fst (send_bulk sample_env sample_net (sample_db []) sample_now
                    (JObj [(''messages'', JArr sample_messages_with_null)]))) \<and>
   snd (send_bulk sample_env null_net (sample_db []) sample_now
          (JObj [(''messages'', JArr sample_messages)])) =
     \<lparr>status = 200,
      body = BulkJson []
        [(JStr ''whatsapp:+15550001111'', TypeError),
         (JStr ''15550002222'', AxiosError ''Request failed with status code 400''),
         (JStr ''15550003333'', TypeError)]\<rparr>"
  by code_simp

end
